theory Spec2Isabelle
  imports Complex_Main "HOL-Library.Word"
begin

unbundle bit_operations_syntax

section \<open>PyFlare native platform layer (engine/platform/native/native.c)\<close>

text \<open>
  The file is one translation unit with a Win32 branch and an X11/GLX branch chosen by
  the preprocessor. The embedding takes the branch as a parameter of every function that
  differs between the two builds. (The include section has a third branch, for Apple;
  the implementation has none for it.)

  Calls into the operating system and into OpenGL are not code of this program. What
  such a call returns is read from a record \<open>os_env\<close>: the answers the system gives
  during one call of the API. C \<open>int\<close> and \<open>unsigned int\<close> are \<open>32 word\<close>, pointers and
  handles are \<open>64 word\<close> (0 is NULL). A \<open>double\<close> is the real number it stands for, and
  every conversion to \<open>double\<close> and every operation on doubles rounds its exact result
  to the nearest double (\<open>round_double\<close>).
\<close>

datatype platform = Win32 | X11

subsection \<open>Platform abstraction structures\<close>

record WindowConfig =
  width :: "32 word"
  height :: "32 word"
  title :: string
  fullscreen :: bool
  vsync :: bool
  gl_major :: "32 word"
  gl_minor :: "32 word"

record WindowState =
  native_handle :: "64 word"
  gl_context :: "64 word"
  width :: "32 word"
  height :: "32 word"
  is_open :: bool
  last_time :: real
  delta_time :: real

subsection \<open>Events of the two window systems\<close>

text \<open>
  The message and event identifiers are constants of the system headers. The code
  only compares them for equality, so each is a constructor, with one more for every
  identifier the code does not name.
\<close>

datatype win_message = WM_CLOSE | WM_SIZE | WM_DESTROY | WM_QUIT | WM_OTHER

record MSG =
  message :: win_message
  wParam :: "64 word"
  lParam :: "64 word"

datatype x_event_type = ClientMessage | ConfigureNotify | OtherEvent

record XEvent =
  type :: x_event_type
  xconfigure_width :: "32 word"
  xconfigure_height :: "32 word"

subsection \<open>Standard output\<close>

text \<open>Each \<open>printf\<close> is recorded with its format string and its arguments, in order.\<close>

datatype printf_arg = Int_arg "32 word" | Str_arg string

definition newline :: char where
  "newline = CHR 0x0A"

subsection \<open>Double-precision arithmetic\<close>

text \<open>
  The time stamps are IEEE 754 binary64 values and the expressions on them are
  evaluated in that format: a conversion from an integer, a division, an addition or a
  subtraction gives the double nearest to the exact result, with ties going to the even
  significand. No operand in this program comes near the largest double (all are below
  \<open>2 ^ 64\<close>), so infinities and NaN do not arise and are not modelled.
\<close>

text \<open>The integer nearest to \<open>y\<close>; of two that are equally near, the even one.\<close>

definition round_half_even :: "real \<Rightarrow> int" where
  "round_half_even y =
     (let f = \<lfloor>y\<rfloor>; r = y - of_int f
      in if r < 1 / 2 then f
         else if 1 / 2 < r then f + 1
         else if even f then f else f + 1)"

text \<open>
  The binary exponent of a positive \<open>x\<close>, the \<open>e\<close> with
  \<open>2 powi e \<le> x < 2 powi (e + 1)\<close>: by halving when \<open>x\<close> is 1 or more, by doubling
  when it is below 1.
\<close>

function exponent_up :: "real \<Rightarrow> int" where
  "exponent_up x = (if 2 \<le> x then exponent_up (x / 2) + 1 else 0)"
  by pat_completeness auto
termination
proof (relation "measure (\<lambda>x. nat \<lfloor>x\<rfloor>)")
  show "wf (measure (\<lambda>x. nat \<lfloor>x\<rfloor>))"
    by simp
next
  fix x :: real
  assume "2 \<le> x"
  then have "\<lfloor>x / 2\<rfloor> < \<lfloor>x\<rfloor>" and "0 < \<lfloor>x\<rfloor>"
    by linarith+
  then show "(x / 2, x) \<in> measure (\<lambda>x. nat \<lfloor>x\<rfloor>)"
    by simp
qed

function exponent_down :: "real \<Rightarrow> int" where
  "exponent_down x = (if 0 < x \<and> x < 1 then exponent_down (2 * x) - 1 else 0)"
  by pat_completeness auto
termination
proof (relation "measure (\<lambda>x. nat \<lfloor>1 / x\<rfloor>)")
  show "wf (measure (\<lambda>x. nat \<lfloor>1 / x\<rfloor>))"
    by simp
next
  fix x :: real
  assume x: "0 < x \<and> x < 1"
  define y where "y = 1 / x"
  with x have "1 < y"
    by simp
  then have pos: "0 < \<lfloor>y\<rfloor>"
    by linarith
  have "real_of_int \<lfloor>y / 2\<rfloor> \<le> y / 2" and "y < real_of_int \<lfloor>y\<rfloor> + 1"
    by linarith+
  then have "real_of_int (2 * \<lfloor>y / 2\<rfloor>) < real_of_int (\<lfloor>y\<rfloor> + 1)"
    unfolding of_int_mult of_int_add of_int_numeral of_int_1 by linarith
  then have "2 * \<lfloor>y / 2\<rfloor> < \<lfloor>y\<rfloor> + 1"
    by (simp only: of_int_less_iff)
  with pos have lt: "nat \<lfloor>y / 2\<rfloor> < nat \<lfloor>y\<rfloor>"
    by linarith
  have eq: "1 / (2 * x) = y / 2"
    by (simp add: y_def)
  have "nat \<lfloor>1 / (2 * x)\<rfloor> < nat \<lfloor>1 / x\<rfloor>"
    unfolding eq using lt by (simp only: y_def)
  then show "(2 * x, x) \<in> measure (\<lambda>x. nat \<lfloor>1 / x\<rfloor>)"
    by (simp only: in_measure)
qed

declare exponent_up.simps [simp del] exponent_down.simps [simp del]

definition exponent :: "real \<Rightarrow> int" where
  "exponent x = (if 1 \<le> x then exponent_up x else exponent_down x)"

text \<open>
  The doubles around an \<open>x\<close> of exponent \<open>e\<close> are the integer multiples of
  \<open>2 powi (e - 52)\<close>; below the smallest normal number, whose exponent is -1022, they
  are the multiples of \<open>2 powi (- 1074)\<close>.
\<close>

definition round_double :: "real \<Rightarrow> real" where
  "round_double x =
     (if x = 0 then 0
      else
        let e = max (exponent \<bar>x\<bar>) (- 1022);
            q = 2 powi (e - 52)
        in of_int (round_half_even (x / q)) * q)"

text \<open>The conversion \<open>(double)n\<close> of an integer.\<close>

definition double_of_int :: "int \<Rightarrow> real" where
  "double_of_int n = round_double (of_int n)"

subsection \<open>Answers of the operating system and of OpenGL\<close>

datatype shader_type = GL_VERTEX_SHADER | GL_FRAGMENT_SHADER

record timespec =
  tv_sec :: "64 word"
  tv_nsec :: "64 word"

record os_env =
  RegisterClassEx :: "16 word"
  CreateWindowEx :: "64 word"
  wglCreateContext :: "64 word"
  GetTickCount :: "32 word"
  GetProcessMemoryInfo :: "32 word"
  WorkingSetSize :: "64 word"
  XOpenDisplay :: "64 word"
  glXChooseVisual :: "64 word"
  XCreateWindow :: "64 word"
  glXCreateContext :: "64 word"
  clock_gettime :: timespec
  glGetString_VERSION :: string
  glGetString_VENDOR :: string
  glGetString_RENDERER :: string
  GL_COMPILE_STATUS :: "shader_type \<Rightarrow> string \<Rightarrow> 32 word"
  glGetShaderInfoLog :: "shader_type \<Rightarrow> string \<Rightarrow> string"
  glCreateProgram :: "32 word"
  GL_LINK_STATUS :: "string \<Rightarrow> string \<Rightarrow> 32 word"
  glGetProgramInfoLog :: "string \<Rightarrow> string \<Rightarrow> string"

subsection \<open>The global state\<close>

text \<open>
  \<open>g_window\<close> is the global record of both builds; \<open>g_display\<close>, \<open>g_x_window\<close> and
  \<open>g_glx_context\<close> are the three further globals of the X11 build (they stay 0 on
  Win32). The pending messages of the thread (Win32) and the pending events of the
  display connection (X11) are part of the state, so that the event pump can be seen to
  empty them, and so is everything written to standard output.
\<close>

record world =
  g_window :: WindowState
  g_display :: "64 word"
  g_x_window :: "64 word"
  g_glx_context :: "64 word"
  msg_queue :: "MSG list"
  x_queue :: "XEvent list"
  stdout :: "(string \<times> printf_arg list) list"

definition initial_window :: WindowState where
  "initial_window =
     \<lparr>native_handle = 0, gl_context = 0, width = 0, height = 0, is_open = False,
      last_time = 0, delta_time = 0\<rparr>"

definition initial_world :: world where
  "initial_world =
     \<lparr>g_window = initial_window, g_display = 0, g_x_window = 0, g_glx_context = 0,
      msg_queue = [], x_queue = [], stdout = []\<rparr>"

definition printf :: "string \<Rightarrow> printf_arg list \<Rightarrow> world \<Rightarrow> world" where
  "printf fmt args s = s\<lparr>stdout := stdout s @ [(fmt, args)]\<rparr>"

subsection \<open>Win32 implementation\<close>

definition LOWORD :: "64 word \<Rightarrow> 16 word" where
  "LOWORD l = ucast (l AND 0xFFFF)"

definition HIWORD :: "64 word \<Rightarrow> 16 word" where
  "HIWORD l = ucast (drop_bit 16 l AND 0xFFFF)"

text \<open>
  \<open>PostQuitMessage\<close> makes the system deliver \<open>WM_QUIT\<close> once the other pending
  messages are gone: it is put at the end of the queue.
\<close>

definition PostQuitMessage :: "64 word \<Rightarrow> world \<Rightarrow> world" where
  "PostQuitMessage code s =
     s\<lparr>msg_queue := msg_queue s @ [\<lparr>message = WM_QUIT, wParam = code, lParam = 0\<rparr>]\<rparr>"

text \<open>
  The window procedure. Its result (0, or what \<open>DefWindowProc\<close> answers) is dropped
  by the pump and is not part of the model; \<open>glViewport\<close> only acts on the GL context.
\<close>

definition WindowProc :: "MSG \<Rightarrow> world \<Rightarrow> world" where
  "WindowProc msg s =
     (case message msg of
        WM_CLOSE \<Rightarrow> s\<lparr>g_window := (g_window s)\<lparr>is_open := False\<rparr>\<rparr>
      | WM_SIZE \<Rightarrow>
          s\<lparr>g_window := (g_window s)\<lparr>width := ucast (LOWORD (lParam msg)),
                                      height := ucast (HIWORD (lParam msg))\<rparr>\<rparr>
      | WM_DESTROY \<Rightarrow> PostQuitMessage 0 s
      | _ \<Rightarrow> s)"

text \<open>
  \<open>DispatchMessage\<close> hands a window message to the window procedure; \<open>WM_QUIT\<close>
  belongs to no window and reaches none. The window procedure is entered from the pump
  only: messages that the system sends to it from inside another call are outside the
  model.
\<close>

definition DispatchMessage :: "MSG \<Rightarrow> world \<Rightarrow> world" where
  "DispatchMessage msg s = (if message msg = WM_QUIT then s else WindowProc msg s)"

text \<open>
  Window creation on Win32. The two checked calls are \<open>RegisterClassEx\<close> and
  \<open>CreateWindowEx\<close>; the pixel format and the GL context are set up without a check.
  The window style, the adjusted rectangle and the pixel format descriptor only travel
  to the system.
\<close>

definition native_create_window_win32 ::
  "os_env \<Rightarrow> WindowConfig \<Rightarrow> world \<Rightarrow> 32 word \<times> world" where
  "native_create_window_win32 env config s =
     (if RegisterClassEx env = 0 then
        (0, printf (''Failed to register window class'' @ [newline]) [] s)
      else
        let hwnd = CreateWindowEx env in
        if hwnd = 0 then
          (0, printf (''Failed to create window'' @ [newline]) [] s)
        else
          let hglrc = wglCreateContext env in
          (1, s\<lparr>g_window := (g_window s)
                 \<lparr>native_handle := hwnd,
                  gl_context := hglrc,
                  width := WindowConfig.width config,
                  height := WindowConfig.height config,
                  is_open := True,
                  last_time :=
                    round_double (double_of_int (uint (GetTickCount env)) / 1000)\<rparr>\<rparr>))"

text \<open>
  The pump: while \<open>PeekMessage\<close> finds a message it removes it (\<open>PM_REMOVE\<close>) and
  dispatches it. A \<open>WM_DESTROY\<close> makes the queue one \<open>WM_QUIT\<close> longer, so the loop
  is seen to end by counting a \<open>WM_DESTROY\<close> twice.
\<close>

definition msg_cost :: "MSG \<Rightarrow> nat" where
  "msg_cost msg = (if message msg = WM_DESTROY then 2 else 1)"

function native_poll_events_win32 :: "world \<Rightarrow> world" where
  "native_poll_events_win32 s =
     (case msg_queue s of
        [] \<Rightarrow> s
      | msg # rest \<Rightarrow> native_poll_events_win32 (DispatchMessage msg (s\<lparr>msg_queue := rest\<rparr>)))"
  by pat_completeness auto
termination
proof (relation "measure (\<lambda>s. sum_list (map msg_cost (msg_queue s)))")
  show "wf (measure (\<lambda>s. sum_list (map msg_cost (msg_queue s))))"
    by simp
next
  fix s :: world and msg rest
  assume "msg_queue s = msg # rest"
  then show "(DispatchMessage msg (s\<lparr>msg_queue := rest\<rparr>), s)
      \<in> measure (\<lambda>s. sum_list (map msg_cost (msg_queue s)))"
    by (cases "message msg")
      (simp_all add: DispatchMessage_def WindowProc_def PostQuitMessage_def msg_cost_def)
qed

declare native_poll_events_win32.simps [simp del]

subsection \<open>X11 implementation\<close>

text \<open>
  Window creation on X11. The two checked calls are \<open>XOpenDisplay\<close> and
  \<open>glXChooseVisual\<close>; the display is stored in its global before the check.
\<close>

definition native_create_window_x11 ::
  "os_env \<Rightarrow> WindowConfig \<Rightarrow> world \<Rightarrow> 32 word \<times> world" where
  "native_create_window_x11 env config s =
     (let s1 = s\<lparr>g_display := XOpenDisplay env\<rparr> in
      if g_display s1 = 0 then
        (0, printf (''Failed to open X display'' @ [newline]) [] s1)
      else
        let vi = glXChooseVisual env in
        if vi = 0 then
          (0, printf (''Failed to choose visual'' @ [newline]) [] s1)
        else
          let s2 = s1\<lparr>g_x_window := XCreateWindow env\<rparr>;
              s3 = s2\<lparr>g_glx_context := glXCreateContext env\<rparr>
          in (1, s3\<lparr>g_window := (g_window s3)
                    \<lparr>native_handle := g_x_window s3,
                     gl_context := g_glx_context s3,
                     width := WindowConfig.width config,
                     height := WindowConfig.height config,
                     is_open := True\<rparr>\<rparr>))"

text \<open>
  The body of the pump's loop is the \<open>switch\<close> on the event type; the loop runs while
  \<open>XPending\<close> reports an event and takes it with \<open>XNextEvent\<close>.
\<close>

definition x11_event :: "XEvent \<Rightarrow> world \<Rightarrow> world" where
  "x11_event event s =
     (case type event of
        ClientMessage \<Rightarrow> s\<lparr>g_window := (g_window s)\<lparr>is_open := False\<rparr>\<rparr>
      | ConfigureNotify \<Rightarrow>
          s\<lparr>g_window := (g_window s)\<lparr>width := xconfigure_width event,
                                      height := xconfigure_height event\<rparr>\<rparr>
      | OtherEvent \<Rightarrow> s)"

function native_poll_events_x11 :: "world \<Rightarrow> world" where
  "native_poll_events_x11 s =
     (case x_queue s of
        [] \<Rightarrow> s
      | event # rest \<Rightarrow> native_poll_events_x11 (x11_event event (s\<lparr>x_queue := rest\<rparr>)))"
  by pat_completeness auto
termination
proof (relation "measure (\<lambda>s. length (x_queue s))")
  show "wf (measure (\<lambda>s. length (x_queue s)))"
    by simp
next
  fix s :: world and event rest
  assume "x_queue s = event # rest"
  then show "(x11_event event (s\<lparr>x_queue := rest\<rparr>), s) \<in> measure (\<lambda>s. length (x_queue s))"
    by (cases "type event") (simp_all add: x11_event_def)
qed

declare native_poll_events_x11.simps [simp del]

subsection \<open>Platform-independent API\<close>

definition native_create_window ::
  "platform \<Rightarrow> os_env \<Rightarrow> WindowConfig \<Rightarrow> world \<Rightarrow> 32 word \<times> world" where
  "native_create_window p env config s =
     (case p of
        Win32 \<Rightarrow> native_create_window_win32 env config s
      | X11 \<Rightarrow> native_create_window_x11 env config s)"

definition native_poll_events :: "platform \<Rightarrow> world \<Rightarrow> world" where
  "native_poll_events p s =
     (case p of
        Win32 \<Rightarrow> native_poll_events_win32 s
      | X11 \<Rightarrow> native_poll_events_x11 s)"

text \<open>
  The parameters \<open>w\<close>, \<open>h\<close>, \<open>t\<close>, \<open>fs\<close> and \<open>vs\<close> are the source's \<open>width\<close>,
  \<open>height\<close>, \<open>title\<close>, \<open>fullscreen\<close> and \<open>vsync\<close>. After a successful creation the
  function sets up GL state (calls that act on the GL context only) and prints four
  lines.
\<close>

definition native_init_window ::
  "platform \<Rightarrow> os_env \<Rightarrow> 32 word \<Rightarrow> 32 word \<Rightarrow> string \<Rightarrow> 32 word \<Rightarrow> 32 word \<Rightarrow> world
     \<Rightarrow> 32 word \<times> world" where
  "native_init_window p env w h t fs vs s =
     (let config = \<lparr>WindowConfig.width = w, WindowConfig.height = h,
                     title = t, fullscreen = (fs \<noteq> 0), vsync = (vs \<noteq> 0),
                     gl_major = 2, gl_minor = 1\<rparr>;
          (created, s1) = native_create_window p env config s
      in if created = 0 then (0, s1)
         else
           (1, printf (''OpenGL Renderer: %s'' @ [newline]) [Str_arg (glGetString_RENDERER env)]
                (printf (''OpenGL Vendor: %s'' @ [newline]) [Str_arg (glGetString_VENDOR env)]
                  (printf (''OpenGL Version: %s'' @ [newline]) [Str_arg (glGetString_VERSION env)]
                    (printf (''PyFlare Native Window Created: %dx%d'' @ [newline])
                       [Int_arg w, Int_arg h] s1)))))"

text \<open>
  Destruction releases the context, the window and (X11) the display when the handle
  that names them is not null; these calls act on the window system only. The one
  assignment to program state is the open flag.
\<close>

definition native_destroy_window :: "platform \<Rightarrow> world \<Rightarrow> world" where
  "native_destroy_window p s =
     printf (''PyFlare Native Window Destroyed'' @ [newline]) []
       (s\<lparr>g_window := (g_window s)\<lparr>is_open := False\<rparr>\<rparr>)"

text \<open>
  The reading of the clock, as \<open>native_update\<close> and \<open>native_get_time\<close> compute it:
  \<open>(double)GetTickCount() / 1000.0\<close> on Win32 and
  \<open>ts.tv_sec + ts.tv_nsec / 1000000000.0\<close> on X11, where both fields of the
  \<open>timespec\<close> are signed 64-bit integers.
\<close>

definition current_time :: "platform \<Rightarrow> os_env \<Rightarrow> real" where
  "current_time p env =
     (case p of
        Win32 \<Rightarrow> round_double (double_of_int (uint (GetTickCount env)) / 1000)
      | X11 \<Rightarrow>
          round_double
            (double_of_int (sint (tv_sec (clock_gettime env)))
             + round_double (double_of_int (sint (tv_nsec (clock_gettime env))) / 1000000000)))"

definition native_update :: "platform \<Rightarrow> os_env \<Rightarrow> world \<Rightarrow> world" where
  "native_update p env s =
     (let s1 = native_poll_events p s;
          now = current_time p env;
          s2 = s1\<lparr>g_window := (g_window s1)
                 \<lparr>delta_time := round_double (now - last_time (g_window s1))\<rparr>\<rparr>
      in s2\<lparr>g_window := (g_window s2)\<lparr>last_time := now\<rparr>\<rparr>)"

definition native_is_window_open :: "world \<Rightarrow> 32 word" where
  "native_is_window_open s = (if is_open (g_window s) then 1 else 0)"

text \<open>The two output pointers are the two components of the result.\<close>

definition native_get_window_size :: "world \<Rightarrow> 32 word \<times> 32 word" where
  "native_get_window_size s = (width (g_window s), height (g_window s))"

definition native_get_delta_time :: "world \<Rightarrow> real" where
  "native_get_delta_time s = delta_time (g_window s)"

subsection \<open>OpenGL utility functions\<close>

text \<open>
  \<open>glGetShaderiv\<close> and \<open>glGetProgramiv\<close> write the local \<open>success\<close>; the value they
  leave there is \<open>GL_COMPILE_STATUS\<close> and \<open>GL_LINK_STATUS\<close> of the environment. The
  info log is read into a buffer of 512 characters: 511 and the terminator.
\<close>

definition native_create_shader :: "os_env \<Rightarrow> string \<Rightarrow> string \<Rightarrow> world \<Rightarrow> 32 word \<times> world" where
  "native_create_shader env vertex_src fragment_src s =
     (if GL_COMPILE_STATUS env GL_VERTEX_SHADER vertex_src = 0 then
        (0, printf (''Vertex shader compilation failed: %s'' @ [newline])
              [Str_arg (take 511 (glGetShaderInfoLog env GL_VERTEX_SHADER vertex_src))] s)
      else if GL_COMPILE_STATUS env GL_FRAGMENT_SHADER fragment_src = 0 then
        (0, printf (''Fragment shader compilation failed: %s'' @ [newline])
              [Str_arg (take 511 (glGetShaderInfoLog env GL_FRAGMENT_SHADER fragment_src))] s)
      else
        let program = glCreateProgram env in
        if GL_LINK_STATUS env vertex_src fragment_src = 0 then
          (0, printf (''Shader program linking failed: %s'' @ [newline])
                [Str_arg (take 511 (glGetProgramInfoLog env vertex_src fragment_src))] s)
        else (program, s))"

subsection \<open>Memory and performance utilities\<close>

text \<open>
  The result type is \<open>long\<close>: 32 bits on Windows, where \<open>WorkingSetSize\<close> is a
  \<open>SIZE_T\<close> of pointer width. The cast keeps the low 32 bits and reads them as a signed
  number. The result is given as the integer the \<open>long\<close> stands for.
\<close>

definition native_get_memory_usage :: "platform \<Rightarrow> os_env \<Rightarrow> int" where
  "native_get_memory_usage p env =
     (case p of
        Win32 \<Rightarrow>
          if GetProcessMemoryInfo env \<noteq> 0
          then sint (ucast (WorkingSetSize env) :: 32 word)
          else 0
      | X11 \<Rightarrow> 0)"

definition native_get_time :: "platform \<Rightarrow> os_env \<Rightarrow> real" where
  "native_get_time p env = current_time p env"

subsection \<open>Runs of the API\<close>

text \<open>
  A client calls the thirteen functions of the C interface in some order
  (\<open>native_create_window\<close>, \<open>native_poll_events\<close> and \<open>native_swap_buffers\<close> are the
  platform layer below it, reached through them); between two calls the
  window system may queue messages or events. A run is a list of such steps, each with
  the answers the system gives during it. The functions that only draw or only read
  (\<open>native_present\<close>, \<open>native_clear\<close>, \<open>native_use_shader\<close>, \<open>native_delete_shader\<close>,
  the getters) leave the state as it is.
\<close>

datatype api_call =
    Call_init_window "32 word" "32 word" string "32 word" "32 word"
  | Call_destroy_window
  | Call_update
  | Call_present
  | Call_is_window_open
  | Call_get_window_size
  | Call_get_delta_time
  | Call_clear
  | Call_create_shader string string
  | Call_use_shader "32 word"
  | Call_delete_shader "32 word"
  | Call_get_memory_usage
  | Call_get_time
  | System_queues "MSG list" "XEvent list"

fun step :: "platform \<Rightarrow> world \<Rightarrow> api_call \<times> os_env \<Rightarrow> world" where
  "step p s (Call_init_window w h t f v, env) = snd (native_init_window p env w h t f v s)"
| "step p s (Call_destroy_window, env) = native_destroy_window p s"
| "step p s (Call_update, env) = native_update p env s"
| "step p s (Call_create_shader vs fs, env) = snd (native_create_shader env vs fs s)"
| "step p s (System_queues msgs events, env) =
     (case p of
        Win32 \<Rightarrow> s\<lparr>msg_queue := msg_queue s @ msgs\<rparr>
      | X11 \<Rightarrow> s\<lparr>x_queue := x_queue s @ events\<rparr>)"
| "step p s (_, env) = s"

definition run :: "platform \<Rightarrow> (api_call \<times> os_env) list \<Rightarrow> world \<Rightarrow> world" where
  "run p calls s = foldl (step p) s calls"

subsection \<open>Vocabulary of the properties\<close>

definition queue_empty :: "platform \<Rightarrow> world \<Rightarrow> bool" where
  "queue_empty p s = (case p of Win32 \<Rightarrow> msg_queue s = [] | X11 \<Rightarrow> x_queue s = [])"

definition close_pending :: "platform \<Rightarrow> world \<Rightarrow> bool" where
  "close_pending p s =
     (case p of
        Win32 \<Rightarrow> (\<exists>msg \<in> set (msg_queue s). message msg = WM_CLOSE)
      | X11 \<Rightarrow> (\<exists>event \<in> set (x_queue s). type event = ClientMessage))"

text \<open>
  The failures that window creation checks for, the order in which it checks them, and
  the line it prints for each. Registration and window creation are the checks of the
  Win32 build, the display and the visual those of the X11 build.
\<close>

datatype creation_failure =
    Register_class_failed
  | Create_window_failed
  | Open_display_failed
  | Choose_visual_failed

definition creation_failure :: "platform \<Rightarrow> os_env \<Rightarrow> creation_failure option" where
  "creation_failure p env =
     (case p of
        Win32 \<Rightarrow>
          if RegisterClassEx env = 0 then Some Register_class_failed
          else if CreateWindowEx env = 0 then Some Create_window_failed
          else None
      | X11 \<Rightarrow>
          if XOpenDisplay env = 0 then Some Open_display_failed
          else if glXChooseVisual env = 0 then Some Choose_visual_failed
          else None)"

fun failure_message :: "creation_failure \<Rightarrow> string" where
  "failure_message Register_class_failed = ''Failed to register window class'' @ [newline]"
| "failure_message Create_window_failed = ''Failed to create window'' @ [newline]"
| "failure_message Open_display_failed = ''Failed to open X display'' @ [newline]"
| "failure_message Choose_visual_failed = ''Failed to choose visual'' @ [newline]"

text \<open>
  The system reports a new client size of \<open>l\<close> by \<open>h\<close> in the \<open>lParam\<close> of
  \<open>WM_SIZE\<close>: the width in the low-order word, the height in the high-order word of a
  32-bit value.
\<close>

definition MAKELPARAM :: "16 word \<Rightarrow> 16 word \<Rightarrow> 64 word" where
  "MAKELPARAM l h = ucast (ucast l OR push_bit 16 (ucast h) :: 32 word)"

text \<open>
  On the Win32 build a successful window creation stores the tick count as the last
  time stamp; no other step but \<open>native_update\<close> writes that field.
\<close>

definition restarts_timer :: "platform \<Rightarrow> api_call \<times> os_env \<Rightarrow> bool" where
  "restarts_timer p ce =
     (case fst ce of
        Call_init_window w h t fs vs \<Rightarrow> p = Win32 \<and> creation_failure p (snd ce) = None
      | _ \<Rightarrow> False)"

text \<open>A sample of answers in which every call of the system succeeds.\<close>

definition sample_env :: os_env where
  "sample_env =
     \<lparr>RegisterClassEx = 1, CreateWindowEx = 0x1000, wglCreateContext = 0x2000,
      GetTickCount = 5000, GetProcessMemoryInfo = 1, WorkingSetSize = 0x100000,
      XOpenDisplay = 0x3000, glXChooseVisual = 0x4000, XCreateWindow = 0x5000,
      glXCreateContext = 0x6000, clock_gettime = \<lparr>tv_sec = 5, tv_nsec = 0\<rparr>,
      glGetString_VERSION = ''2.1'', glGetString_VENDOR = ''vendor'',
      glGetString_RENDERER = ''renderer'',
      GL_COMPILE_STATUS = (\<lambda>kind src. if src = [] then 0 else 1),
      glGetShaderInfoLog = (\<lambda>kind src. if src = [] then ''empty source'' else []),
      glCreateProgram = 3,
      GL_LINK_STATUS = (\<lambda>vertex_src fragment_src. if vertex_src = fragment_src then 0 else 1),
      glGetProgramInfoLog =
        (\<lambda>vertex_src fragment_src. if vertex_src = fragment_src then ''no entry point'' else [])\<rparr>"

section \<open>Properties\<close>

subsection \<open>Rounding to double\<close>

lemma exponent_up_spec:
  "1 \<le> x \<Longrightarrow> 0 \<le> exponent_up x \<and> 2 powi exponent_up x \<le> x \<and> x < 2 powi (exponent_up x + 1)"
proof (induction x rule: exponent_up.induct)
  case (1 x)
  show ?case
  proof (cases "2 \<le> x")
    case True
    then have "1 \<le> x / 2" by simp
    from "1.IH" [OF True this] True show ?thesis
      by (subst (1 2 3) exponent_up.simps) (simp add: power_int_add field_simps)
  next
    case False
    with "1.prems" show ?thesis
      by (subst (1 2 3) exponent_up.simps) simp
  qed
qed

lemma exponent_down_spec:
  "0 < x \<Longrightarrow> x < 1 \<Longrightarrow> 2 powi exponent_down x \<le> x \<and> x < 2 powi (exponent_down x + 1)"
proof (induction x rule: exponent_down.induct)
  case (1 x)
  from "1.prems" have c: "0 < x \<and> x < 1" by simp
  then have e: "exponent_down x = exponent_down (2 * x) - 1"
    by (subst exponent_down.simps) simp
  show ?case
  proof (cases "2 * x < 1")
    case True
    with c have "0 < 2 * x" by simp
    from "1.IH" [OF c this True]
    have "2 powi exponent_down (2 * x) \<le> 2 * x"
      and "2 * x < 2 powi (exponent_down (2 * x) + 1)"
      by simp_all
    moreover have "(2::real) powi (exponent_down (2 * x) - 1) = 2 powi exponent_down (2 * x) / 2"
      by (simp add: power_int_diff)
    moreover have "(2::real) powi (exponent_down (2 * x) + 1) = 2 * 2 powi exponent_down (2 * x)"
      by (simp add: power_int_add)
    ultimately show ?thesis
      by (simp add: e)
  next
    case False
    then have "exponent_down (2 * x) = 0"
      by (subst exponent_down.simps) simp
    with c False show ?thesis
      by (simp add: e power_int_minus)
  qed
qed

lemma exponent_spec:
  "0 < x \<Longrightarrow> 2 powi exponent x \<le> x \<and> x < 2 powi (exponent x + 1)"
  using exponent_up_spec [of x] exponent_down_spec [of x]
  by (cases "1 \<le> x") (simp_all add: exponent_def)

lemma exponent_unique:
  assumes "0 < x" "2 powi k \<le> x" "x < 2 powi (k + 1)"
  shows "exponent x = k"
proof (rule ccontr)
  assume ne: "exponent x \<noteq> k"
  from exponent_spec [OF assms(1)]
  have lo: "2 powi exponent x \<le> x" and hi: "x < 2 powi (exponent x + 1)"
    by simp_all
  show False
  proof (cases "exponent x < k")
    case True
    then have "(2::real) powi (exponent x + 1) \<le> 2 powi k"
      by (intro power_int_increasing) simp_all
    with hi assms(2) show False by linarith
  next
    case False
    with ne have "(2::real) powi (k + 1) \<le> 2 powi exponent x"
      by (intro power_int_increasing) simp_all
    with lo assms(3) show False by linarith
  qed
qed


lemma round_half_even_of_int: "round_half_even (of_int m) = m"
  by (simp add: round_half_even_def)

lemma round_half_even_ge: "of_int l \<le> y \<Longrightarrow> l \<le> round_half_even y"
proof -
  assume "of_int l \<le> y"
  then have "l \<le> \<lfloor>y\<rfloor>" by (simp add: le_floor_iff)
  then show ?thesis by (simp add: round_half_even_def Let_def)
qed

lemma round_half_even_le: "y \<le> of_int u \<Longrightarrow> round_half_even y \<le> u"
proof (cases "y = of_int u")
  case True
  then show ?thesis by (simp add: round_half_even_of_int)
next
  case False
  assume "y \<le> of_int u"
  with False have "y < of_int u" by simp
  then have "\<lfloor>y\<rfloor> < u" by (simp add: floor_less_iff)
  then show ?thesis by (simp add: round_half_even_def Let_def)
qed

lemma round_double_max:
  "x \<noteq> 0 \<Longrightarrow> max (exponent \<bar>x\<bar>) (- 1022) = e \<Longrightarrow>
     round_double x = of_int (round_half_even (x / 2 powi (e - 52))) * 2 powi (e - 52)"
  by (simp add: round_double_def Let_def)

lemma round_double_eqI:
  assumes "2 powi e \<le> \<bar>x\<bar>" "\<bar>x\<bar> < 2 powi (e + 1)" "- 1022 \<le> e"
    and "round_half_even (x / 2 powi (e - 52)) = m"
  shows "round_double x = of_int m * 2 powi (e - 52)"
proof -
  have "(0::real) < 2 powi e" by simp
  with assms(1) have pos: "0 < \<bar>x\<bar>" by linarith
  then have "exponent \<bar>x\<bar> = e"
    using assms(1,2) by (intro exponent_unique)
  with assms(3) have "max (exponent \<bar>x\<bar>) (- 1022) = e" by simp
  with pos assms(4) show ?thesis
    by (simp add: round_double_max)
qed

lemma round_double_exact:
  assumes "2 powi e \<le> \<bar>x\<bar>" "\<bar>x\<bar> < 2 powi (e + 1)" "- 1022 \<le> e"
    and "x / 2 powi (e - 52) = of_int m"
  shows "round_double x = x"
proof -
  from assms(4) have "round_half_even (x / 2 powi (e - 52)) = m"
    by (simp add: round_half_even_of_int)
  from round_double_eqI [OF assms(1-3) this] have "round_double x = of_int m * 2 powi (e - 52)" .
  also from assms(4) have "\<dots> = x"
    by (simp add: field_simps)
  finally show ?thesis .
qed

lemma round_double_subnormal:
  assumes "x \<noteq> 0" "\<bar>x\<bar> < 2 powi e" "e = - 1022"
  shows "round_double x = of_int (round_half_even (x / 2 powi (e - 52))) * 2 powi (e - 52)"
proof -
  from assms(1) have pos: "0 < \<bar>x\<bar>" by simp
  from exponent_spec [OF pos] assms(2) have "(2::real) powi exponent \<bar>x\<bar> < 2 powi e"
    by linarith
  then have "exponent \<bar>x\<bar> < e"
    by (metis linorder_not_less one_le_numeral power_int_increasing)
  with assms(3) have "max (exponent \<bar>x\<bar>) (- 1022) = e" by simp
  from round_double_max [OF assms(1) this] show ?thesis .
qed

lemma round_double_nonneg: "0 \<le> x \<Longrightarrow> 0 \<le> round_double x"
proof (cases "x = 0")
  case True
  then show ?thesis by (simp add: round_double_def)
next
  case False
  assume "0 \<le> x"
  define q :: real where "q = 2 powi (max (exponent \<bar>x\<bar>) (- 1022) - 52)"
  have q: "0 < q" by (simp add: q_def)
  with \<open>0 \<le> x\<close> have "of_int 0 \<le> x / q" by simp
  then have "0 \<le> round_half_even (x / q)" by (rule round_half_even_ge)
  with q False show ?thesis
    by (simp add: round_double_def Let_def q_def)
qed

text \<open>Values on the grid of the doubles are left as they are.\<close>

lemma round_double_grid:
  assumes e: "- 1022 \<le> e" and m: "\<bar>m\<bar> \<le> 2 ^ 53" and n: "2 ^ 52 \<le> \<bar>m\<bar> \<or> e = - 1022"
  shows "round_double (of_int m * 2 powi (e - 52)) = of_int m * 2 powi (e - 52)"
proof -
  define q :: real where "q = 2 powi (e - 52)"
  define y where "y = of_int m * q"
  have q: "0 < q" by (simp add: q_def)
  have ay: "\<bar>y\<bar> = of_int \<bar>m\<bar> * q"
    using q by (simp add: y_def abs_mult)
  have qe: "2 ^ 52 * q = 2 powi e"
    by (simp add: q_def power_int_diff)
  have qe1: "2 ^ 53 * q = 2 powi (e + 1)"
    by (simp add: q_def power_int_diff power_int_add)
  consider (zero) "m = 0" | (top) "\<bar>m\<bar> = 2 ^ 53" | (normal) "2 ^ 52 \<le> \<bar>m\<bar>" "\<bar>m\<bar> < 2 ^ 53"
    | (sub) "m \<noteq> 0" "\<bar>m\<bar> < 2 ^ 52"
    using m by linarith
  then have "round_double y = y"
  proof cases
    case zero
    then show ?thesis by (simp add: y_def round_double_def)
  next
    case top
    then have ay': "\<bar>y\<bar> = 2 powi (e + 1)"
      using ay qe1 by simp
    have "(2::real) powi (e + 1) < 2 powi (e + 1 + 1)"
      by (intro power_int_strict_increasing) simp_all
    with ay' have 1: "2 powi (e + 1) \<le> \<bar>y\<bar>" and 2: "\<bar>y\<bar> < 2 powi (e + 1 + 1)"
      by simp_all
    from e have 3: "- 1022 \<le> e + 1" by simp
    from top have "even m"
      by (metis abs_of_nonneg abs_of_nonpos even_minus even_numeral even_power linorder_le_cases
          zero_less_numeral)
    then obtain k where k: "m = 2 * k" by (elim evenE)
    have "(2::real) powi (e + 1 - 52) = 2 * q"
      by (simp add: q_def power_int_diff power_int_add)
    then have 4: "y / 2 powi (e + 1 - 52) = of_int k"
      using q by (simp add: y_def k)
    from round_double_exact [OF 1 2 3 4] show ?thesis .
  next
    case normal
    from normal(1) have "real_of_int (2 ^ 52) \<le> of_int \<bar>m\<bar>"
      by (simp only: of_int_le_iff)
    then have "2 ^ 52 * q \<le> of_int \<bar>m\<bar> * q"
      using q by (intro mult_right_mono) simp_all
    then have 1: "2 powi e \<le> \<bar>y\<bar>"
      by (simp only: qe ay)
    from normal(2) have "real_of_int \<bar>m\<bar> < of_int (2 ^ 53)"
      by (simp only: of_int_less_iff)
    then have "of_int \<bar>m\<bar> * q < 2 ^ 53 * q"
      using q by (intro mult_strict_right_mono) simp_all
    then have 2: "\<bar>y\<bar> < 2 powi (e + 1)"
      by (simp only: qe1 ay)
    have 4: "y / 2 powi (e - 52) = of_int m"
      using q by (simp add: y_def q_def)
    from round_double_exact [OF 1 2 e 4] show ?thesis .
  next
    case sub
    with n have e': "e = - 1022" by linarith
    from sub(2) have "real_of_int \<bar>m\<bar> < of_int (2 ^ 52)"
      by (simp only: of_int_less_iff)
    then have "of_int \<bar>m\<bar> * q < 2 ^ 52 * q"
      using q by (intro mult_strict_right_mono) simp_all
    then have small: "\<bar>y\<bar> < 2 powi e"
      by (simp only: qe ay)
    from sub(1) q have nz: "y \<noteq> 0"
      by (simp add: y_def)
    have "y / 2 powi (e - 52) = of_int m"
      using q by (simp add: y_def q_def)
    with round_double_subnormal [OF nz small e'] show ?thesis
      by (simp add: round_half_even_of_int y_def q_def)
  qed
  then show ?thesis
    by (simp only: y_def q_def)
qed

lemma round_double_idem: "round_double (round_double x) = round_double x"
proof (cases "x = 0")
  case True
  then show ?thesis by (simp add: round_double_def)
next
  case False
  define e0 where "e0 = exponent \<bar>x\<bar>"
  define e where "e = max e0 (- 1022)"
  define q :: real where "q = 2 powi (e - 52)"
  define m where "m = round_half_even (x / q)"
  have q: "0 < q" by (simp add: q_def)
  from False have pos: "0 < \<bar>x\<bar>" by simp
  from exponent_spec [OF pos] have lo: "2 powi e0 \<le> \<bar>x\<bar>" and hi: "\<bar>x\<bar> < 2 powi (e0 + 1)"
    by (simp_all add: e0_def)
  have rx: "round_double x = of_int m * 2 powi (e - 52)"
    using False by (simp add: round_double_def Let_def m_def q_def e_def e0_def)
  have e: "- 1022 \<le> e" by (simp add: e_def)
  have qe: "2 ^ 52 * q = 2 powi e"
    by (simp add: q_def power_int_diff)
  have qe1: "2 ^ 53 * q = 2 powi (e + 1)"
    by (simp add: q_def power_int_diff power_int_add)
  have "(2::real) powi (e0 + 1) \<le> 2 powi (e + 1)"
    by (intro power_int_increasing) (simp_all add: e_def)
  with hi have "\<bar>x\<bar> < 2 ^ 53 * q"
    by (simp only: qe1)
  with q have "\<bar>x\<bar> / q < 2 ^ 53"
    by (simp add: field_simps)
  moreover from q have "\<bar>x / q\<bar> = \<bar>x\<bar> / q"
    by simp
  ultimately have "- (2 ^ 53) \<le> x / q" and "x / q \<le> 2 ^ 53"
    by linarith+
  then have a: "of_int (- (2 ^ 53)) \<le> x / q" and b: "x / q \<le> of_int (2 ^ 53)"
    by simp_all
  from a have "- (2 ^ 53) \<le> m"
    unfolding m_def by (rule round_half_even_ge)
  moreover from b have "m \<le> 2 ^ 53"
    unfolding m_def by (rule round_half_even_le)
  ultimately have m: "\<bar>m\<bar> \<le> 2 ^ 53" by linarith
  have n: "2 ^ 52 \<le> \<bar>m\<bar> \<or> e = - 1022"
  proof (cases "e = - 1022")
    case True
    then show ?thesis by simp
  next
    case False
    then have "e = e0" by (simp add: e_def split: if_splits)
    with lo have "2 ^ 52 * q \<le> \<bar>x\<bar>"
      by (simp only: qe)
    with q have "2 ^ 52 \<le> \<bar>x\<bar> / q"
      by (simp add: field_simps)
    moreover from q have "\<bar>x / q\<bar> = \<bar>x\<bar> / q"
      by simp
    ultimately have "2 ^ 52 \<le> x / q \<or> x / q \<le> - (2 ^ 52)"
      by linarith
    then consider "of_int (2 ^ 52) \<le> x / q" | "x / q \<le> of_int (- (2 ^ 52))"
      by auto
    then have "2 ^ 52 \<le> \<bar>m\<bar>"
    proof cases
      case 1
      then have "2 ^ 52 \<le> m" unfolding m_def by (rule round_half_even_ge)
      then show ?thesis by linarith
    next
      case 2
      then have "m \<le> - (2 ^ 52)" unfolding m_def by (rule round_half_even_le)
      then show ?thesis by linarith
    qed
    then show ?thesis by simp
  qed
  from round_double_grid [OF e m n] show ?thesis
    by (simp only: rx)
qed

subsection \<open>The X11 event pump\<close>

lemma x11_event_frame:
  "x_queue (x11_event e s) = x_queue s"
  "msg_queue (x11_event e s) = msg_queue s"
  "stdout (x11_event e s) = stdout s"
  "g_display (x11_event e s) = g_display s"
  "g_x_window (x11_event e s) = g_x_window s"
  "g_glx_context (x11_event e s) = g_glx_context s"
  "last_time (g_window (x11_event e s)) = last_time (g_window s)"
  "delta_time (g_window (x11_event e s)) = delta_time (g_window s)"
  "native_handle (g_window (x11_event e s)) = native_handle (g_window s)"
  "gl_context (g_window (x11_event e s)) = gl_context (g_window s)"
  by (cases "type e"; simp add: x11_event_def)+

lemma x11_poll_queue: "x_queue (native_poll_events_x11 s) = []"
proof (induction s rule: native_poll_events_x11.induct)
  case (1 s)
  show ?case
  proof (cases "x_queue s")
    case Nil
    then show ?thesis by (subst native_poll_events_x11.simps) simp
  next
    case (Cons e rest)
    with "1.IH" [OF Cons] show ?thesis
      by (subst native_poll_events_x11.simps) simp
  qed
qed

lemma x11_poll_frame:
  "last_time (g_window (native_poll_events_x11 s)) = last_time (g_window s)
   \<and> delta_time (g_window (native_poll_events_x11 s)) = delta_time (g_window s)
   \<and> native_handle (g_window (native_poll_events_x11 s)) = native_handle (g_window s)
   \<and> gl_context (g_window (native_poll_events_x11 s)) = gl_context (g_window s)
   \<and> stdout (native_poll_events_x11 s) = stdout s
   \<and> msg_queue (native_poll_events_x11 s) = msg_queue s
   \<and> g_display (native_poll_events_x11 s) = g_display s
   \<and> g_x_window (native_poll_events_x11 s) = g_x_window s
   \<and> g_glx_context (native_poll_events_x11 s) = g_glx_context s"
proof (induction s rule: native_poll_events_x11.induct)
  case (1 s)
  show ?case
  proof (cases "x_queue s")
    case Nil
    then show ?thesis by (subst (1 2 3 4 5 6 7 8 9) native_poll_events_x11.simps) simp
  next
    case (Cons e rest)
    with "1.IH" [OF Cons] show ?thesis
      by (subst (1 2 3 4 5 6 7 8 9) native_poll_events_x11.simps) (simp add: x11_event_frame)
  qed
qed

lemma x11_poll_open:
  "is_open (g_window (native_poll_events_x11 s))
     = (is_open (g_window s) \<and> (\<forall>e \<in> set (x_queue s). type e \<noteq> ClientMessage))"
proof (induction s rule: native_poll_events_x11.induct)
  case (1 s)
  show ?case
  proof (cases "x_queue s")
    case Nil
    then show ?thesis by (subst native_poll_events_x11.simps) simp
  next
    case (Cons e rest)
    have "is_open (g_window (x11_event e (s\<lparr>x_queue := rest\<rparr>)))
            = (is_open (g_window s) \<and> type e \<noteq> ClientMessage)"
      by (cases "type e") (simp_all add: x11_event_def)
    with "1.IH" [OF Cons] Cons show ?thesis
      by (subst native_poll_events_x11.simps) (auto simp: x11_event_frame)
  qed
qed


lemma x11_poll_size_kept:
  "\<forall>e \<in> set (x_queue s). type e \<noteq> ConfigureNotify \<Longrightarrow>
     width (g_window (native_poll_events_x11 s)) = width (g_window s)
     \<and> height (g_window (native_poll_events_x11 s)) = height (g_window s)"
proof (induction s rule: native_poll_events_x11.induct)
  case (1 s)
  show ?case
  proof (cases "x_queue s")
    case Nil
    then show ?thesis by (subst (1 2) native_poll_events_x11.simps) simp
  next
    case (Cons e rest)
    with "1.prems" have e: "type e \<noteq> ConfigureNotify"
      and rest: "\<forall>e' \<in> set rest. type e' \<noteq> ConfigureNotify"
      by simp_all
    from e have "width (g_window (x11_event e (s\<lparr>x_queue := rest\<rparr>))) = width (g_window s)
        \<and> height (g_window (x11_event e (s\<lparr>x_queue := rest\<rparr>))) = height (g_window s)"
      by (cases "type e") (simp_all add: x11_event_def)
    with "1.IH" [OF Cons] rest Cons show ?thesis
      by (subst (1 2) native_poll_events_x11.simps) (simp add: x11_event_frame)
  qed
qed

lemma x11_poll_size_last:
  "x_queue s = before @ event # after \<Longrightarrow> type event = ConfigureNotify \<Longrightarrow>
   \<forall>e \<in> set after. type e \<noteq> ConfigureNotify \<Longrightarrow>
     width (g_window (native_poll_events_x11 s)) = xconfigure_width event
     \<and> height (g_window (native_poll_events_x11 s)) = xconfigure_height event"
proof (induction s arbitrary: before rule: native_poll_events_x11.induct)
  case (1 s)
  show ?case
  proof (cases before)
    case Nil
    with "1.prems" have q: "x_queue s = event # after" by simp
    let ?s' = "x11_event event (s\<lparr>x_queue := after\<rparr>)"
    have "\<forall>e \<in> set (x_queue ?s'). type e \<noteq> ConfigureNotify"
      using "1.prems" by (simp add: x11_event_frame)
    from x11_poll_size_kept [OF this] "1.prems"(2) q show ?thesis
      by (subst (1 2) native_poll_events_x11.simps) (simp add: x11_event_def)
  next
    case (Cons e before')
    with "1.prems" have q: "x_queue s = e # (before' @ event # after)" by simp
    have "x_queue (x11_event e (s\<lparr>x_queue := before' @ event # after\<rparr>)) = before' @ event # after"
      by (simp add: x11_event_frame)
    from "1.IH" [OF q this "1.prems"(2,3)] q show ?thesis
      by (subst (1 2) native_poll_events_x11.simps) simp
  qed
qed


subsection \<open>The Win32 message pump\<close>

lemma DispatchMessage_frame:
  "x_queue (DispatchMessage m s) = x_queue s"
  "stdout (DispatchMessage m s) = stdout s"
  "g_display (DispatchMessage m s) = g_display s"
  "g_x_window (DispatchMessage m s) = g_x_window s"
  "g_glx_context (DispatchMessage m s) = g_glx_context s"
  "last_time (g_window (DispatchMessage m s)) = last_time (g_window s)"
  "delta_time (g_window (DispatchMessage m s)) = delta_time (g_window s)"
  "native_handle (g_window (DispatchMessage m s)) = native_handle (g_window s)"
  "gl_context (g_window (DispatchMessage m s)) = gl_context (g_window s)"
  by (cases "message m"; simp add: DispatchMessage_def WindowProc_def PostQuitMessage_def)+

lemma DispatchMessage_queue:
  "msg_queue (DispatchMessage m s) =
     (if message m = WM_DESTROY
      then msg_queue s @ [\<lparr>message = WM_QUIT, wParam = 0, lParam = 0\<rparr>]
      else msg_queue s)"
  by (cases "message m") (simp_all add: DispatchMessage_def WindowProc_def PostQuitMessage_def)

lemma DispatchMessage_open:
  "is_open (g_window (DispatchMessage m s)) = (is_open (g_window s) \<and> message m \<noteq> WM_CLOSE)"
  by (cases "message m") (simp_all add: DispatchMessage_def WindowProc_def PostQuitMessage_def)

lemma DispatchMessage_size_kept:
  "message m \<noteq> WM_SIZE \<Longrightarrow>
     width (g_window (DispatchMessage m s)) = width (g_window s)
     \<and> height (g_window (DispatchMessage m s)) = height (g_window s)"
  by (cases "message m") (simp_all add: DispatchMessage_def WindowProc_def PostQuitMessage_def)

lemma win32_poll_queue: "msg_queue (native_poll_events_win32 s) = []"
proof (induction s rule: native_poll_events_win32.induct)
  case (1 s)
  show ?case
  proof (cases "msg_queue s")
    case Nil
    then show ?thesis by (subst native_poll_events_win32.simps) simp
  next
    case (Cons m rest)
    with "1.IH" [OF Cons] show ?thesis
      by (subst native_poll_events_win32.simps) simp
  qed
qed

lemma win32_poll_frame:
  "last_time (g_window (native_poll_events_win32 s)) = last_time (g_window s)
   \<and> delta_time (g_window (native_poll_events_win32 s)) = delta_time (g_window s)
   \<and> native_handle (g_window (native_poll_events_win32 s)) = native_handle (g_window s)
   \<and> gl_context (g_window (native_poll_events_win32 s)) = gl_context (g_window s)
   \<and> stdout (native_poll_events_win32 s) = stdout s
   \<and> x_queue (native_poll_events_win32 s) = x_queue s
   \<and> g_display (native_poll_events_win32 s) = g_display s
   \<and> g_x_window (native_poll_events_win32 s) = g_x_window s
   \<and> g_glx_context (native_poll_events_win32 s) = g_glx_context s"
proof (induction s rule: native_poll_events_win32.induct)
  case (1 s)
  show ?case
  proof (cases "msg_queue s")
    case Nil
    then show ?thesis by (subst (1 2 3 4 5 6 7 8 9) native_poll_events_win32.simps) simp
  next
    case (Cons m rest)
    with "1.IH" [OF Cons] show ?thesis
      by (subst (1 2 3 4 5 6 7 8 9) native_poll_events_win32.simps)
        (simp add: DispatchMessage_frame)
  qed
qed

lemma win32_poll_open:
  "is_open (g_window (native_poll_events_win32 s))
     = (is_open (g_window s) \<and> (\<forall>m \<in> set (msg_queue s). message m \<noteq> WM_CLOSE))"
proof (induction s rule: native_poll_events_win32.induct)
  case (1 s)
  show ?case
  proof (cases "msg_queue s")
    case Nil
    then show ?thesis by (subst native_poll_events_win32.simps) simp
  next
    case (Cons m rest)
    with "1.IH" [OF Cons] show ?thesis
      by (subst native_poll_events_win32.simps)
        (auto simp: DispatchMessage_open DispatchMessage_queue)
  qed
qed

lemma win32_poll_size_kept:
  "\<forall>m \<in> set (msg_queue s). message m \<noteq> WM_SIZE \<Longrightarrow>
     width (g_window (native_poll_events_win32 s)) = width (g_window s)
     \<and> height (g_window (native_poll_events_win32 s)) = height (g_window s)"
proof (induction s rule: native_poll_events_win32.induct)
  case (1 s)
  show ?case
  proof (cases "msg_queue s")
    case Nil
    then show ?thesis by (subst (1 2) native_poll_events_win32.simps) simp
  next
    case (Cons m rest)
    with "1.prems" have m: "message m \<noteq> WM_SIZE"
      and rest: "\<forall>m' \<in> set rest. message m' \<noteq> WM_SIZE"
      by simp_all
    let ?s' = "DispatchMessage m (s\<lparr>msg_queue := rest\<rparr>)"
    from rest have "\<forall>m' \<in> set (msg_queue ?s'). message m' \<noteq> WM_SIZE"
      by (simp add: DispatchMessage_queue)
    from "1.IH" [OF Cons this] DispatchMessage_size_kept [OF m, of "s\<lparr>msg_queue := rest\<rparr>"] Cons
    show ?thesis
      by (subst (1 2) native_poll_events_win32.simps) simp
  qed
qed

lemma win32_poll_size_last:
  "msg_queue s = before @ msg # after \<Longrightarrow> message msg = WM_SIZE \<Longrightarrow>
   \<forall>m \<in> set after. message m \<noteq> WM_SIZE \<Longrightarrow>
     width (g_window (native_poll_events_win32 s)) = ucast (LOWORD (lParam msg))
     \<and> height (g_window (native_poll_events_win32 s)) = ucast (HIWORD (lParam msg))"
proof (induction s arbitrary: before after rule: native_poll_events_win32.induct)
  case (1 s)
  show ?case
  proof (cases before)
    case Nil
    with "1.prems" have q: "msg_queue s = msg # after" by simp
    let ?s' = "DispatchMessage msg (s\<lparr>msg_queue := after\<rparr>)"
    have "\<forall>m \<in> set (msg_queue ?s'). message m \<noteq> WM_SIZE"
      using "1.prems" by (simp add: DispatchMessage_queue)
    from win32_poll_size_kept [OF this] "1.prems"(2) q show ?thesis
      by (subst (1 2) native_poll_events_win32.simps)
        (simp add: DispatchMessage_def WindowProc_def)
  next
    case (Cons m before')
    with "1.prems" have q: "msg_queue s = m # (before' @ msg # after)" by simp
    let ?after' = "if message m = WM_DESTROY
                   then after @ [\<lparr>message = WM_QUIT, wParam = 0, lParam = 0\<rparr>] else after"
    have q': "msg_queue (DispatchMessage m (s\<lparr>msg_queue := before' @ msg # after\<rparr>))
                = before' @ msg # ?after'"
      by (simp add: DispatchMessage_queue)
    have "\<forall>m' \<in> set ?after'. message m' \<noteq> WM_SIZE"
      using "1.prems"(3) by simp
    from "1.IH" [OF q q' "1.prems"(2) this] q show ?thesis
      by (subst (1 2) native_poll_events_win32.simps) simp
  qed
qed


subsection \<open>Words of a message parameter\<close>

lemma mask16: "(0xFFFF :: 64 word) = mask 16"
  by (simp add: mask_eq_exp_minus_1)

lemma LOWORD_MAKELPARAM: "LOWORD (MAKELPARAM l h) = l"
  unfolding LOWORD_def MAKELPARAM_def mask16
  by (rule bit_word_eqI) (auto simp: bit_simps)

lemma HIWORD_MAKELPARAM: "HIWORD (MAKELPARAM l h) = h"
  unfolding HIWORD_def MAKELPARAM_def mask16
  by (rule bit_word_eqI) (auto simp: bit_simps dest: bit_imp_le_length)

subsection \<open>Window creation\<close>

lemma printf_g_window: "g_window (printf fmt args s) = g_window s"
  by (simp add: printf_def)

lemma printf_stdout: "stdout (printf fmt args s) = stdout s @ [(fmt, args)]"
  by (simp add: printf_def)

lemma create_win32_result:
  "fst (native_create_window_win32 env config s) = (if creation_failure Win32 env = None then 1 else 0)"
  by (simp add: native_create_window_win32_def creation_failure_def Let_def)

lemma create_x11_result:
  "fst (native_create_window_x11 env config s) = (if creation_failure X11 env = None then 1 else 0)"
  by (simp add: native_create_window_x11_def creation_failure_def Let_def)

lemma create_result:
  "fst (native_create_window p env config s) = (if creation_failure p env = None then 1 else 0)"
  by (cases p) (simp_all add: native_create_window_def create_win32_result create_x11_result)

lemma create_failed_window:
  "creation_failure p env = Some f \<Longrightarrow>
     g_window (snd (native_create_window p env config s)) = g_window s"
  by (cases p)
    (auto simp: native_create_window_def native_create_window_win32_def
      native_create_window_x11_def creation_failure_def Let_def printf_def split: if_splits)

lemma create_failed_stdout:
  "creation_failure p env = Some f \<Longrightarrow>
     stdout (snd (native_create_window p env config s)) = stdout s @ [(failure_message f, [])]"
  by (cases p)
    (auto simp: native_create_window_def native_create_window_win32_def
      native_create_window_x11_def creation_failure_def Let_def printf_def split: if_splits)

lemma init_result:
  "fst (native_init_window p env w h t fs vs s) = (if creation_failure p env = None then 1 else 0)"
proof -
  let ?config = "\<lparr>WindowConfig.width = w, WindowConfig.height = h, title = t,
                   fullscreen = (fs \<noteq> 0), vsync = (vs \<noteq> 0), gl_major = 2, gl_minor = 1\<rparr>"
  obtain r s1 where c: "native_create_window p env ?config s = (r, s1)"
    by (cases "native_create_window p env ?config s")
  with create_result [of p env ?config s] show ?thesis
    by (simp add: native_init_window_def)
qed

lemma init_failed_state:
  "creation_failure p env = Some f \<Longrightarrow>
     snd (native_init_window p env w h t fs vs s)
       = snd (native_create_window p env
           \<lparr>WindowConfig.width = w, WindowConfig.height = h, title = t,
            fullscreen = (fs \<noteq> 0), vsync = (vs \<noteq> 0), gl_major = 2, gl_minor = 1\<rparr> s)"
proof -
  assume f: "creation_failure p env = Some f"
  let ?config = "\<lparr>WindowConfig.width = w, WindowConfig.height = h, title = t,
                   fullscreen = (fs \<noteq> 0), vsync = (vs \<noteq> 0), gl_major = 2, gl_minor = 1\<rparr>"
  obtain r s1 where c: "native_create_window p env ?config s = (r, s1)"
    by (cases "native_create_window p env ?config s")
  with create_result [of p env ?config s] f show ?thesis
    by (simp add: native_init_window_def)
qed

lemma init_g_window:
  "g_window (snd (native_init_window p env w h t fs vs s))
       = g_window (snd (native_create_window p env
           \<lparr>WindowConfig.width = w, WindowConfig.height = h, title = t,
            fullscreen = (fs \<noteq> 0), vsync = (vs \<noteq> 0), gl_major = 2, gl_minor = 1\<rparr> s))"
proof -
  let ?config = "\<lparr>WindowConfig.width = w, WindowConfig.height = h, title = t,
                   fullscreen = (fs \<noteq> 0), vsync = (vs \<noteq> 0), gl_major = 2, gl_minor = 1\<rparr>"
  obtain r s1 where c: "native_create_window p env ?config s = (r, s1)"
    by (cases "native_create_window p env ?config s")
  then show ?thesis
    by (simp add: native_init_window_def printf_g_window)
qed

subsection \<open>Conversion of the working-set size\<close>

lemma long_of_small_size:
  fixes ws :: "64 word"
  assumes "ws < 2 ^ 31"
  shows "sint (ucast ws :: 32 word) = uint ws"
proof -
  from assms have u: "uint ws < 2 ^ 31"
    by (simp add: word_less_def)
  have "uint (ucast ws :: 32 word) = uint ws"
    using u by (simp add: unsigned_ucast_eq take_bit_int_eq_self)
  then have "sint (ucast ws :: 32 word) = signed_take_bit 31 (uint ws)"
    by (simp add: sint_uint)
  also have "\<dots> = uint ws"
  proof (rule signed_take_bit_int_eq_self)
    have "- (2 ^ 31) \<le> (0::int)" by simp
    also have "(0::int) \<le> uint ws" by simp
    finally show "- (2 ^ 31) \<le> uint ws" .
    show "uint ws < 2 ^ 31" by (rule u)
  qed
  finally show ?thesis .
qed

subsection \<open>Steps and runs\<close>

lemma poll_queue_empty: "queue_empty p (native_poll_events p s)"
  by (cases p) (simp_all add: queue_empty_def native_poll_events_def win32_poll_queue x11_poll_queue)

lemma poll_open:
  "is_open (g_window (native_poll_events p s)) = (is_open (g_window s) \<and> \<not> close_pending p s)"
  by (cases p)
    (auto simp: native_poll_events_def close_pending_def win32_poll_open x11_poll_open)

lemma poll_timing:
  "last_time (g_window (native_poll_events p s)) = last_time (g_window s)"
  "delta_time (g_window (native_poll_events p s)) = delta_time (g_window s)"
  by (cases p; simp add: native_poll_events_def win32_poll_frame x11_poll_frame)+

lemma update_g_window:
  "g_window (native_update p env s)
     = (g_window (native_poll_events p s))
         \<lparr>delta_time := round_double (current_time p env - last_time (g_window s)),
          last_time := current_time p env\<rparr>"
  by (simp add: native_update_def Let_def poll_timing)

lemma create_window_open:
  "is_open (g_window (snd (native_create_window p env config s)))
     = (creation_failure p env = None \<or> is_open (g_window s))"
  by (cases p)
    (auto simp: native_create_window_def native_create_window_win32_def
      native_create_window_x11_def creation_failure_def Let_def printf_def split: if_splits)

lemma init_open:
  "is_open (g_window (snd (native_init_window p env w h t fs vs s)))
     = (fst (native_init_window p env w h t fs vs s) = 1 \<or> is_open (g_window s))"
  by (auto simp: init_g_window create_window_open init_result)

lemma shader_g_window: "g_window (snd (native_create_shader env vs fs s)) = g_window s"
  by (simp add: native_create_shader_def Let_def printf_def)

lemma step_open:
  "is_open (g_window (step p s (c, env))) =
     (case c of
        Call_init_window w h t fs vs \<Rightarrow>
          fst (native_init_window p env w h t fs vs s) = 1 \<or> is_open (g_window s)
      | Call_destroy_window \<Rightarrow> False
      | Call_update \<Rightarrow> is_open (g_window s) \<and> \<not> close_pending p s
      | _ \<Rightarrow> is_open (g_window s))"
  by (cases c; cases p)
    (simp_all add: init_open native_destroy_window_def printf_def update_g_window poll_open
      shader_g_window)

lemma create_window_delta:
  "delta_time (g_window (snd (native_create_window p env config s))) = delta_time (g_window s)"
  by (cases p)
    (simp_all add: native_create_window_def native_create_window_win32_def
      native_create_window_x11_def Let_def printf_def)

lemma create_window_last:
  "last_time (g_window (snd (native_create_window p env config s)))
     = (if p = Win32 \<and> creation_failure p env = None
        then current_time Win32 env
        else last_time (g_window s))"
  by (cases p)
    (simp_all add: native_create_window_def native_create_window_win32_def
      native_create_window_x11_def creation_failure_def current_time_def Let_def printf_def)

lemma step_delta_kept:
  "fst ce \<noteq> Call_update \<Longrightarrow>
     delta_time (g_window (step p s ce)) = delta_time (g_window s)"
  by (cases ce; cases "fst ce"; cases p)
    (simp_all add: init_g_window create_window_delta native_destroy_window_def printf_def
      shader_g_window)

lemma step_last_kept:
  "fst ce \<noteq> Call_update \<Longrightarrow> \<not> restarts_timer p ce \<Longrightarrow>
     last_time (g_window (step p s ce)) = last_time (g_window s)"
  by (cases ce; cases "fst ce"; cases p)
    (auto simp: init_g_window create_window_last native_destroy_window_def printf_def
      shader_g_window restarts_timer_def)

lemma run_append: "run p (xs @ ys) s = run p ys (run p xs s)"
  by (simp add: run_def)

lemma run_delta_kept:
  "\<forall>ce \<in> set calls. fst ce \<noteq> Call_update \<Longrightarrow>
     delta_time (g_window (run p calls s)) = delta_time (g_window s)"
  unfolding run_def by (induction calls arbitrary: s) (simp_all add: step_delta_kept)

lemma run_last_kept:
  "\<forall>ce \<in> set calls. fst ce \<noteq> Call_update \<and> \<not> restarts_timer p ce \<Longrightarrow>
     last_time (g_window (run p calls s)) = last_time (g_window s)"
  unfolding run_def by (induction calls arbitrary: s) (simp_all add: step_last_kept)

lemma run_update:
  "run p [(Call_update, env)] s = native_update p env s"
  by (simp add: run_def)

subsection \<open>Doubles that are exact, and the order of roundings\<close>

text \<open>
  A dyadic fraction whose numerator is below \<open>2 ^ 53\<close> is a double, and so is every
  integer below \<open>2 ^ 53\<close>; rounding is symmetric about 0 and monotone.
\<close>

lemma round_double_0: "round_double 0 = 0"
  by (simp add: round_double_def)

lemma round_double_dyadic:
  assumes m: "\<bar>m\<bar> < 2 ^ 53" and k: "k \<le> 1022"
  shows "round_double (of_int m / 2 ^ k) = of_int m / 2 ^ k"
proof (cases "m = 0")
  case True
  then show ?thesis by (simp add: round_double_0)
next
  case False
  define x :: real where "x = of_int m / 2 ^ k"
  define e where "e = exponent \<bar>x\<bar>"
  from False have nz: "x \<noteq> 0" by (simp add: x_def)
  then have pos: "0 < \<bar>x\<bar>" by simp
  from exponent_spec [OF pos] have lo: "2 powi e \<le> \<bar>x\<bar>" and hi: "\<bar>x\<bar> < 2 powi (e + 1)"
    by (simp_all add: e_def)
  have ax: "\<bar>x\<bar> = of_int \<bar>m\<bar> / 2 ^ k"
    by (simp add: x_def)
  from False have "1 \<le> \<bar>m\<bar>" by linarith
  then have "(1::real) \<le> of_int \<bar>m\<bar>" by (simp only: of_int_1_le_iff)
  then have "1 / 2 ^ k \<le> \<bar>x\<bar>"
    unfolding ax by (intro divide_right_mono) simp_all
  moreover have "(2::real) powi (- int k) = 1 / 2 ^ k"
    by (simp add: power_int_minus field_simps)
  ultimately have "(2::real) powi (- int k) < 2 powi (e + 1)"
    using hi by linarith
  then have "- int k < e + 1"
    by (metis linorder_not_less one_le_numeral power_int_increasing)
  with k have e: "- 1022 \<le> e" by linarith
  from m have "real_of_int \<bar>m\<bar> < of_int (2 ^ 53)" by (simp only: of_int_less_iff)
  then have "\<bar>x\<bar> < 2 ^ 53 / 2 ^ k"
    unfolding ax by (intro divide_strict_right_mono) simp_all
  also have "\<dots> = 2 powi (53 - int k)"
    by (simp add: power_int_diff)
  finally have "(2::real) powi e < 2 powi (53 - int k)"
    using lo by linarith
  then have "e < 53 - int k"
    by (metis linorder_not_less one_le_numeral power_int_increasing)
  then have n: "0 \<le> 52 - e - int k" by linarith
  have a: "(2::real) powi ((52 - e - int k) + (e - 52))
             = 2 powi (52 - e - int k) * 2 powi (e - 52)"
    by (rule power_int_add) simp
  have b: "(52 - e - int k) + (e - 52) = - int k"
    by simp
  have c: "(2::real) powi (- int k) * 2 ^ k = 1"
    by (simp add: power_int_minus)
  have one: "(2::real) powi (52 - e - int k) * 2 powi (e - 52) * 2 ^ k = 1"
    by (simp only: a [symmetric] b c)
  have "x / 2 powi (e - 52)
          = of_int m * (2 powi (52 - e - int k) * 2 powi (e - 52) * 2 ^ k)
              / (2 powi (e - 52) * 2 ^ k)"
    by (simp only: one) (simp add: x_def)
  also have "\<dots> = of_int m * 2 powi (52 - e - int k)"
    by simp
  finally have "x / 2 powi (e - 52) = of_int m * 2 powi (52 - e - int k)" .
  also have "\<dots> = of_int m * 2 ^ nat (52 - e - int k)"
    using n by (simp add: power_int_def)
  also have "\<dots> = of_int (m * 2 ^ nat (52 - e - int k))"
    by simp
  finally have "x / 2 powi (e - 52) = of_int (m * 2 ^ nat (52 - e - int k))" .
  from round_double_exact [OF lo hi e this] show ?thesis
    by (simp only: x_def)
qed

lemma round_double_of_int: "\<bar>n\<bar> < 2 ^ 53 \<Longrightarrow> round_double (of_int n) = of_int n"
  using round_double_dyadic [of n 0] by simp

lemma double_of_int_exact: "\<bar>n\<bar> < 2 ^ 53 \<Longrightarrow> double_of_int n = of_int n"
  by (simp add: double_of_int_def round_double_of_int)

lemma round_double_numeral:
  "numeral k < (2::int) ^ 53 \<Longrightarrow> round_double (numeral k) = numeral k"
  using round_double_of_int [of "numeral k"] by simp

lemma round_double_1: "round_double 1 = 1"
  using round_double_of_int [of 1] by simp

lemma round_half_even_cases:
  "round_half_even y =
     (if y - of_int \<lfloor>y\<rfloor> < 1 / 2 then \<lfloor>y\<rfloor>
      else if 1 / 2 < y - of_int \<lfloor>y\<rfloor> then \<lfloor>y\<rfloor> + 1
      else if even \<lfloor>y\<rfloor> then \<lfloor>y\<rfloor> else \<lfloor>y\<rfloor> + 1)"
  by (simp add: round_half_even_def Let_def)

lemma round_half_even_mono: "a \<le> b \<Longrightarrow> round_half_even a \<le> round_half_even b"
proof -
  assume ab: "a \<le> b"
  then have f: "\<lfloor>a\<rfloor> \<le> \<lfloor>b\<rfloor>" by (rule floor_mono)
  have ua: "round_half_even a \<le> \<lfloor>a\<rfloor> + 1" and lb: "\<lfloor>b\<rfloor> \<le> round_half_even b"
    by (simp_all add: round_half_even_cases)
  show ?thesis
  proof (cases "\<lfloor>a\<rfloor> = \<lfloor>b\<rfloor>")
    case True
    define f where "f = \<lfloor>b\<rfloor>"
    define ra where "ra = a - of_int f"
    define rb where "rb = b - of_int f"
    from ab have r: "ra \<le> rb" by (simp add: ra_def rb_def)
    have a: "round_half_even a =
        (if ra < 1 / 2 then f else if 1 / 2 < ra then f + 1 else if even f then f else f + 1)"
      unfolding round_half_even_cases [of a] True ra_def f_def ..
    have b: "round_half_even b =
        (if rb < 1 / 2 then f else if 1 / 2 < rb then f + 1 else if even f then f else f + 1)"
      unfolding round_half_even_cases [of b] rb_def f_def ..
    from r show ?thesis
      unfolding a b by (simp split: if_splits)
  next
    case False
    with f ua lb show ?thesis by linarith
  qed
qed

lemma round_half_even_minus: "round_half_even (- y) = - round_half_even y"
proof (cases "y = of_int \<lfloor>y\<rfloor>")
  case True
  then obtain n where "y = of_int n" ..
  then have "- y = of_int (- n)" by simp
  with \<open>y = of_int n\<close> show ?thesis
    by (simp only: round_half_even_of_int)
next
  case False
  define f where "f = \<lfloor>y\<rfloor>"
  define r where "r = y - of_int f"
  have "of_int f \<le> y" and "y < of_int f + 1"
    unfolding f_def by linarith+
  moreover from False have "y \<noteq> of_int f"
    unfolding f_def .
  ultimately have r: "0 < r" "r < 1"
    unfolding r_def by linarith+
  have "\<lfloor>- y\<rfloor> = - f - 1"
    using r by (intro floor_unique) (simp_all add: r_def)
  then have m: "round_half_even (- y) =
      (if 1 - r < 1 / 2 then - f - 1 else if 1 / 2 < 1 - r then - f
       else if even (- f - 1) then - f - 1 else - f)"
    by (simp add: round_half_even_cases [of "- y"] r_def)
  have p: "round_half_even y =
      (if r < 1 / 2 then f else if 1 / 2 < r then f + 1 else if even f then f else f + 1)"
    unfolding round_half_even_cases [of y] r_def f_def ..
  show ?thesis
    unfolding m p by (simp split: if_splits)
qed

lemma round_double_minus: "round_double (- x) = - round_double x"
  by (simp add: round_double_def Let_def round_half_even_minus)

lemma round_double_pos_bounds:
  assumes x: "0 < x" and e: "e = max (exponent x) (- 1022)"
  shows "round_double x \<le> 2 powi (e + 1)"
    and "- 1022 \<le> exponent x \<Longrightarrow> 2 powi e \<le> round_double x"
proof -
  define q :: real where "q = 2 powi (e - 52)"
  define m where "m = round_half_even (x / q)"
  have q: "0 < q" by (simp add: q_def)
  from x have ax: "\<bar>x\<bar> = x" by simp
  from exponent_spec [OF x] have lo: "2 powi exponent x \<le> x" and hi: "x < 2 powi (exponent x + 1)"
    by simp_all
  have rx: "round_double x = of_int m * q"
    using x by (simp add: round_double_def Let_def m_def q_def e)
  have qe: "2 ^ 52 * q = 2 powi e"
    by (simp add: q_def power_int_diff)
  have qe1: "2 ^ 53 * q = 2 powi (e + 1)"
    by (simp add: q_def power_int_diff power_int_add)
  have "(2::real) powi (exponent x + 1) \<le> 2 powi (e + 1)"
    by (intro power_int_increasing) (simp_all add: e)
  with hi have "x < 2 ^ 53 * q"
    by (simp only: qe1)
  with q have "x / q \<le> of_int (2 ^ 53)"
    by (simp add: field_simps)
  then have "m \<le> 2 ^ 53"
    unfolding m_def by (rule round_half_even_le)
  then have "real_of_int m \<le> of_int (2 ^ 53)"
    by (simp only: of_int_le_iff)
  then have "of_int m * q \<le> 2 ^ 53 * q"
    using q by (intro mult_right_mono) simp_all
  then show "round_double x \<le> 2 powi (e + 1)"
    by (simp only: rx qe1)
  assume "- 1022 \<le> exponent x"
  then have "e = exponent x" by (simp add: e)
  with lo have "2 ^ 52 * q \<le> x"
    by (simp only: qe)
  with q have "of_int (2 ^ 52) \<le> x / q"
    by (simp add: field_simps)
  then have "2 ^ 52 \<le> m"
    unfolding m_def by (rule round_half_even_ge)
  then have "real_of_int (2 ^ 52) \<le> of_int m"
    by (simp only: of_int_le_iff)
  then have "2 ^ 52 * q \<le> of_int m * q"
    using q by (intro mult_right_mono) simp_all
  then show "2 powi e \<le> round_double x"
    by (simp only: rx qe)
qed

lemma round_double_mono_pos:
  assumes x: "0 < x" and xy: "x \<le> y"
  shows "round_double x \<le> round_double y"
proof -
  from x xy have y: "0 < y" by simp
  define ex where "ex = max (exponent x) (- 1022)"
  define ey where "ey = max (exponent y) (- 1022)"
  from exponent_spec [OF x] exponent_spec [OF y] xy
  have "(2::real) powi exponent x < 2 powi (exponent y + 1)"
    by linarith
  then have "exponent x < exponent y + 1"
    by (metis linorder_not_less one_le_numeral power_int_increasing)
  then have le: "ex \<le> ey"
    by (simp add: ex_def ey_def)
  show ?thesis
  proof (cases "ex = ey")
    case True
    define q :: real where "q = 2 powi (ey - 52)"
    have q: "0 < q" by (simp add: q_def)
    from xy q have "x / q \<le> y / q"
      by (simp add: divide_right_mono)
    then have "round_half_even (x / q) \<le> round_half_even (y / q)"
      by (rule round_half_even_mono)
    then have "real_of_int (round_half_even (x / q)) \<le> of_int (round_half_even (y / q))"
      by (simp only: of_int_le_iff)
    then have "of_int (round_half_even (x / q)) * q \<le> of_int (round_half_even (y / q)) * q"
      using q by (intro mult_right_mono) simp_all
    moreover from x have "round_double x = of_int (round_half_even (x / q)) * q"
      using True by (simp add: round_double_def Let_def q_def ex_def)
    moreover from y have "round_double y = of_int (round_half_even (y / q)) * q"
      by (simp add: round_double_def Let_def q_def ey_def)
    ultimately show ?thesis by simp
  next
    case False
    with le have lt: "ex < ey" by simp
    then have "- 1022 < ey" by (simp add: ex_def)
    then have n: "- 1022 \<le> exponent y" by (simp add: ey_def split: if_splits)
    have "round_double x \<le> 2 powi (ex + 1)"
      using x ex_def by (rule round_double_pos_bounds)
    also from lt have "(2::real) powi (ex + 1) \<le> 2 powi ey"
      by (intro power_int_increasing) simp_all
    also have "2 powi ey \<le> round_double y"
      using y ey_def n by (rule round_double_pos_bounds)
    finally show ?thesis .
  qed
qed

lemma round_double_mono: "x \<le> y \<Longrightarrow> round_double x \<le> round_double y"
proof -
  assume xy: "x \<le> y"
  consider (pos) "0 < x" | (neg) "y < 0" | (mid) "x \<le> 0" "0 \<le> y"
    by linarith
  then show ?thesis
  proof cases
    case pos
    from this xy show ?thesis by (rule round_double_mono_pos)
  next
    case neg
    with xy have "0 < - y" and "- y \<le> - x" by simp_all
    then have "round_double (- y) \<le> round_double (- x)"
      by (rule round_double_mono_pos)
    then show ?thesis
      by (simp add: round_double_minus)
  next
    case mid
    from mid(1) have "0 \<le> round_double (- x)"
      by (intro round_double_nonneg) simp
    then have "round_double x \<le> 0"
      by (simp add: round_double_minus)
    also from mid(2) have "0 \<le> round_double y"
      by (rule round_double_nonneg)
    finally show ?thesis .
  qed
qed

subsection \<open>Clock readings\<close>

text \<open>
  The conversion of the tick count is exact. A tick count that has not wrapped, and a
  \<open>timespec\<close> that has not gone back (with its nanoseconds in range and its seconds
  below \<open>2 ^ 53\<close>), give a reading that is not smaller than the one before.
\<close>

lemma current_time_win32:
  "current_time Win32 env = round_double (real_of_int (uint (GetTickCount env)) / 1000)"
proof -
  have "uint (GetTickCount env) < 2 ^ 32"
    using uint_bounded [of "GetTickCount env"] by simp
  moreover have "(2::int) ^ 32 < 2 ^ 53" by simp
  moreover have "0 \<le> uint (GetTickCount env)" by simp
  ultimately have "\<bar>uint (GetTickCount env)\<bar> < 2 ^ 53" by linarith
  then show ?thesis
    by (simp add: current_time_def double_of_int_exact)
qed

lemma current_time_win32_mono:
  "GetTickCount e1 \<le> GetTickCount e2 \<Longrightarrow> current_time Win32 e1 \<le> current_time Win32 e2"
proof -
  assume "GetTickCount e1 \<le> GetTickCount e2"
  then have "uint (GetTickCount e1) \<le> uint (GetTickCount e2)"
    by (simp add: word_le_def)
  then have "real_of_int (uint (GetTickCount e1)) \<le> real_of_int (uint (GetTickCount e2))"
    by (simp only: of_int_le_iff)
  then have "real_of_int (uint (GetTickCount e1)) / 1000 \<le> real_of_int (uint (GetTickCount e2)) / 1000"
    by (rule divide_right_mono) simp
  then show ?thesis
    unfolding current_time_win32 by (rule round_double_mono)
qed

lemma current_time_x11_mono:
  assumes n1: "0 \<le> sint (tv_nsec (clock_gettime e1))" "sint (tv_nsec (clock_gettime e1)) < 1000000000"
    and n2: "0 \<le> sint (tv_nsec (clock_gettime e2))" "sint (tv_nsec (clock_gettime e2)) < 1000000000"
    and s1: "\<bar>sint (tv_sec (clock_gettime e1))\<bar> < 2 ^ 53"
    and s2: "\<bar>sint (tv_sec (clock_gettime e2))\<bar> < 2 ^ 53"
    and le: "sint (tv_sec (clock_gettime e1)) < sint (tv_sec (clock_gettime e2))
             \<or> sint (tv_sec (clock_gettime e1)) = sint (tv_sec (clock_gettime e2))
               \<and> sint (tv_nsec (clock_gettime e1)) \<le> sint (tv_nsec (clock_gettime e2))"
  shows "current_time X11 e1 \<le> current_time X11 e2"
proof -
  define a1 where "a1 = sint (tv_sec (clock_gettime e1))"
  define a2 where "a2 = sint (tv_sec (clock_gettime e2))"
  define b1 where "b1 = sint (tv_nsec (clock_gettime e1))"
  define b2 where "b2 = sint (tv_nsec (clock_gettime e2))"
  define f1 where "f1 = round_double (double_of_int b1 / 1000000000)"
  define f2 where "f2 = round_double (double_of_int b2 / 1000000000)"
  have b1: "\<bar>b1\<bar> < 2 ^ 53" and b2: "\<bar>b2\<bar> < 2 ^ 53"
    using n1 n2 by (simp_all add: b1_def b2_def)
  have f1: "f1 = round_double (of_int b1 / 1000000000)"
    and f2: "f2 = round_double (of_int b2 / 1000000000)"
    by (simp_all only: f1_def f2_def double_of_int_exact [OF b1] double_of_int_exact [OF b2])
  have c1: "current_time X11 e1 = round_double (of_int a1 + f1)"
    using double_of_int_exact [OF s1] by (simp add: current_time_def a1_def f1_def b1_def)
  have c2: "current_time X11 e2 = round_double (of_int a2 + f2)"
    using double_of_int_exact [OF s2] by (simp add: current_time_def a2_def f2_def b2_def)
  from n1 have "b1 \<le> 1000000000"
    by (simp add: b1_def)
  then have "real_of_int b1 \<le> real_of_int 1000000000"
    by (simp only: of_int_le_iff)
  then have "real_of_int b1 / 1000000000 \<le> 1"
    by simp
  then have "f1 \<le> round_double 1"
    unfolding f1 by (rule round_double_mono)
  then have f1_le: "f1 \<le> 1"
    by (simp add: round_double_1)
  from n2 have "0 \<le> b2"
    by (simp add: b2_def)
  then have "0 \<le> real_of_int b2 / 1000000000"
    by simp
  then have f2_ge: "0 \<le> f2"
    unfolding f2 by (rule round_double_nonneg)
  have "real_of_int a1 + f1 \<le> real_of_int a2 + f2"
  proof (cases "a1 < a2")
    case True
    then have "real_of_int a1 + 1 \<le> real_of_int a2"
      by linarith
    with f1_le f2_ge show ?thesis by linarith
  next
    case False
    with le have eq: "a1 = a2" and "b1 \<le> b2"
      by (simp_all add: a1_def a2_def b1_def b2_def)
    then have "real_of_int b1 / 1000000000 \<le> real_of_int b2 / 1000000000"
      by simp
    then have "f1 \<le> f2"
      unfolding f1 f2 by (rule round_double_mono)
    with eq show ?thesis by simp
  qed
  then show ?thesis
    unfolding c1 c2 by (rule round_double_mono)
qed

subsection \<open>The pumps as folds\<close>

text \<open>
  Each pump applies its handler to every pending event in turn. On Win32 the handler
  of \<open>WM_DESTROY\<close> appends a \<open>WM_QUIT\<close>, which the pump takes out as well and
  which changes nothing.
\<close>

lemma x11_event_queue_update:
  "x11_event e (s\<lparr>x_queue := q\<rparr>) = (x11_event e s)\<lparr>x_queue := q\<rparr>"
  by (cases "type e") (simp_all add: x11_event_def)

lemma x11_fold_queue_update:
  "foldl (\<lambda>s event. x11_event event s) (s\<lparr>x_queue := q\<rparr>) events
     = (foldl (\<lambda>s event. x11_event event s) s events)\<lparr>x_queue := q\<rparr>"
  by (induction events arbitrary: s) (simp_all add: x11_event_queue_update)

lemma x11_poll_fold:
  "native_poll_events_x11 s
     = (foldl (\<lambda>s event. x11_event event s) s (x_queue s))\<lparr>x_queue := []\<rparr>"
proof (induction s rule: native_poll_events_x11.induct)
  case (1 s)
  show ?case
  proof (cases "x_queue s")
    case Nil
    then have "s\<lparr>x_queue := []\<rparr> = s" by simp
    with Nil show ?thesis by (subst native_poll_events_x11.simps) simp
  next
    case (Cons e rest)
    have "native_poll_events_x11 s = native_poll_events_x11 (x11_event e (s\<lparr>x_queue := rest\<rparr>))"
      using Cons by (subst native_poll_events_x11.simps) simp
    also have "\<dots> = (foldl (\<lambda>s event. x11_event event s) (x11_event e (s\<lparr>x_queue := rest\<rparr>))
                        (x_queue (x11_event e (s\<lparr>x_queue := rest\<rparr>))))\<lparr>x_queue := []\<rparr>"
      by (rule "1.IH" [OF Cons])
    also have "\<dots> = (foldl (\<lambda>s event. x11_event event s) (x11_event e s) rest)\<lparr>x_queue := []\<rparr>"
      by (simp add: x11_event_queue_update x11_fold_queue_update)
    finally show ?thesis
      by (simp add: Cons)
  qed
qed

lemma DispatchMessage_queue_irrelevant:
  "(DispatchMessage m (s\<lparr>msg_queue := q\<rparr>))\<lparr>msg_queue := []\<rparr>
     = (DispatchMessage m (s\<lparr>msg_queue := []\<rparr>))\<lparr>msg_queue := []\<rparr>"
  by (cases "message m") (simp_all add: DispatchMessage_def WindowProc_def PostQuitMessage_def)

lemma DispatchMessage_quit:
  "DispatchMessage \<lparr>message = WM_QUIT, wParam = w, lParam = l\<rparr> s = s"
  by (simp add: DispatchMessage_def)

lemma win32_fold_queue_irrelevant:
  "(foldl (\<lambda>s msg. DispatchMessage msg s) s msgs)\<lparr>msg_queue := []\<rparr>
     = (foldl (\<lambda>s msg. DispatchMessage msg s) (s\<lparr>msg_queue := []\<rparr>) msgs)\<lparr>msg_queue := []\<rparr>"
proof (induction msgs arbitrary: s)
  case Nil
  show ?case by simp
next
  case (Cons m msgs)
  have "(foldl (\<lambda>s msg. DispatchMessage msg s) s (m # msgs))\<lparr>msg_queue := []\<rparr>
      = (foldl (\<lambda>s msg. DispatchMessage msg s) ((DispatchMessage m s)\<lparr>msg_queue := []\<rparr>) msgs)
          \<lparr>msg_queue := []\<rparr>"
    using Cons.IH [of "DispatchMessage m s"] by simp
  also have "(DispatchMessage m s)\<lparr>msg_queue := []\<rparr>
      = (DispatchMessage m (s\<lparr>msg_queue := []\<rparr>))\<lparr>msg_queue := []\<rparr>"
    using DispatchMessage_queue_irrelevant [where m = m and s = s and q = "msg_queue s"] by simp
  also have "(foldl (\<lambda>s msg. DispatchMessage msg s)
               ((DispatchMessage m (s\<lparr>msg_queue := []\<rparr>))\<lparr>msg_queue := []\<rparr>) msgs)\<lparr>msg_queue := []\<rparr>
      = (foldl (\<lambda>s msg. DispatchMessage msg s) (s\<lparr>msg_queue := []\<rparr>) (m # msgs))\<lparr>msg_queue := []\<rparr>"
    using Cons.IH [of "DispatchMessage m (s\<lparr>msg_queue := []\<rparr>)"] by simp
  finally show ?case .
qed

lemma win32_poll_fold:
  "native_poll_events_win32 s
     = (foldl (\<lambda>s msg. DispatchMessage msg s) (s\<lparr>msg_queue := []\<rparr>) (msg_queue s))
         \<lparr>msg_queue := []\<rparr>"
proof (induction s rule: native_poll_events_win32.induct)
  case (1 s)
  show ?case
  proof (cases "msg_queue s")
    case Nil
    then have "s\<lparr>msg_queue := []\<rparr> = s" by simp
    with Nil show ?thesis by (subst native_poll_events_win32.simps) simp
  next
    case (Cons m rest)
    let ?D = "\<lambda>s msg. DispatchMessage msg s"
    let ?s' = "DispatchMessage m (s\<lparr>msg_queue := rest\<rparr>)"
    have q: "foldl ?D t (msg_queue ?s') = foldl ?D t rest" for t
      by (simp add: DispatchMessage_queue DispatchMessage_quit)
    have "native_poll_events_win32 s = native_poll_events_win32 ?s'"
      using Cons by (subst native_poll_events_win32.simps) simp
    also have "\<dots> = (foldl ?D (?s'\<lparr>msg_queue := []\<rparr>) (msg_queue ?s'))\<lparr>msg_queue := []\<rparr>"
      by (rule "1.IH" [OF Cons])
    also have "\<dots> = (foldl ?D (?s'\<lparr>msg_queue := []\<rparr>) rest)\<lparr>msg_queue := []\<rparr>"
      by (simp only: q)
    also have "?s'\<lparr>msg_queue := []\<rparr> = (DispatchMessage m (s\<lparr>msg_queue := []\<rparr>))\<lparr>msg_queue := []\<rparr>"
      using DispatchMessage_queue_irrelevant [where m = m and s = s and q = rest] by simp
    also have "(foldl ?D ((DispatchMessage m (s\<lparr>msg_queue := []\<rparr>))\<lparr>msg_queue := []\<rparr>) rest)
                 \<lparr>msg_queue := []\<rparr>
        = (foldl ?D (DispatchMessage m (s\<lparr>msg_queue := []\<rparr>)) rest)\<lparr>msg_queue := []\<rparr>"
      by (rule win32_fold_queue_irrelevant [symmetric])
    finally show ?thesis
      by (simp add: Cons)
  qed
qed

section \<open>The claims\<close>

subsection \<open>Shader creation (C1)\<close>

text \<open>
  Claim C1. For every pair of source strings, \<open>native_create_shader\<close> returns 0 when
  the vertex shader fails to compile, when the fragment shader fails to compile, or
  when the program fails to link, in each case after one \<open>printf\<close> of the info log
  that GL gives for the failed object; when both shaders compile and the program links,
  it prints nothing and returns the name of the program object, which is not 0. (A
  program object has a name other than 0: \<open>glCreateProgram\<close> answers 0 only when it
  could not create one.)
\<close>

theorem native_create_shader_result:
  "(GL_COMPILE_STATUS env GL_VERTEX_SHADER vertex_src = 0 \<longrightarrow>
      native_create_shader env vertex_src fragment_src s
        = (0, printf (''Vertex shader compilation failed: %s'' @ [newline])
                [Str_arg (take 511 (glGetShaderInfoLog env GL_VERTEX_SHADER vertex_src))] s))
   \<and> (GL_COMPILE_STATUS env GL_VERTEX_SHADER vertex_src \<noteq> 0
        \<and> GL_COMPILE_STATUS env GL_FRAGMENT_SHADER fragment_src = 0 \<longrightarrow>
      native_create_shader env vertex_src fragment_src s
        = (0, printf (''Fragment shader compilation failed: %s'' @ [newline])
                [Str_arg (take 511 (glGetShaderInfoLog env GL_FRAGMENT_SHADER fragment_src))] s))
   \<and> (GL_COMPILE_STATUS env GL_VERTEX_SHADER vertex_src \<noteq> 0
        \<and> GL_COMPILE_STATUS env GL_FRAGMENT_SHADER fragment_src \<noteq> 0
        \<and> GL_LINK_STATUS env vertex_src fragment_src = 0 \<longrightarrow>
      native_create_shader env vertex_src fragment_src s
        = (0, printf (''Shader program linking failed: %s'' @ [newline])
                [Str_arg (take 511 (glGetProgramInfoLog env vertex_src fragment_src))] s))
   \<and> (GL_COMPILE_STATUS env GL_VERTEX_SHADER vertex_src \<noteq> 0
        \<and> GL_COMPILE_STATUS env GL_FRAGMENT_SHADER fragment_src \<noteq> 0
        \<and> GL_LINK_STATUS env vertex_src fragment_src \<noteq> 0
        \<and> glCreateProgram env \<noteq> 0 \<longrightarrow>
      fst (native_create_shader env vertex_src fragment_src s) \<noteq> 0
      \<and> native_create_shader env vertex_src fragment_src s = (glCreateProgram env, s))"
  by (simp add: native_create_shader_def Let_def)

text \<open>
  Witness for C1: in the sample environment an empty source does not compile, two equal
  sources do not link, and a proper pair gives program 3.
\<close>

theorem native_create_shader_result_witness:
  "native_create_shader sample_env [] ''void main() {}'' initial_world
     = (0, printf (''Vertex shader compilation failed: %s'' @ [newline])
             [Str_arg ''empty source''] initial_world)
   \<and> native_create_shader sample_env ''void main() {}'' [] initial_world
     = (0, printf (''Fragment shader compilation failed: %s'' @ [newline])
             [Str_arg ''empty source''] initial_world)
   \<and> native_create_shader sample_env ''void main() {}'' ''void main() {}'' initial_world
     = (0, printf (''Shader program linking failed: %s'' @ [newline])
             [Str_arg ''no entry point''] initial_world)
   \<and> native_create_shader sample_env ''void main() { gl_Position = gl_Vertex; }''
        ''void main() {}'' initial_world = (3, initial_world)"
  using native_create_shader_result [of sample_env "[]" "''void main() {}''" initial_world]
    native_create_shader_result [of sample_env "''void main() {}''" "[]" initial_world]
    native_create_shader_result
      [of sample_env "''void main() {}''" "''void main() {}''" initial_world]
    native_create_shader_result
      [of sample_env "''void main() { gl_Position = gl_Vertex; }''" "''void main() {}''"
          initial_world]
  by (simp add: sample_env_def)

subsection \<open>Delta time (C2)\<close>

text \<open>
  Claim C2 as written says that after two calls of \<open>native_update\<close> the delta time is
  the time between the two most recent of them. Two runs show otherwise. On the Win32
  build window creation stores its own time stamp: with an update at 1 s, a window
  created at 3 s and an update at 4 s, the delta time is 1 s, while 3 s lie between the
  two updates. And the delta time is a difference of doubles: on X11, with a window
  open and updates at 33554432 s and one nanosecond later, both readings are the double
  33554432 and the delta time is 0.
\<close>

theorem native_get_delta_time_counterexample:
  "native_get_delta_time
     (run Win32
        [(Call_update, sample_env\<lparr>GetTickCount := 1000\<rparr>),
         (Call_init_window 800 600 ''PyFlare'' 0 0, sample_env\<lparr>GetTickCount := 3000\<rparr>),
         (Call_update, sample_env\<lparr>GetTickCount := 4000\<rparr>)]
        initial_world) = 1
   \<and> current_time Win32 (sample_env\<lparr>GetTickCount := 4000\<rparr>)
       - current_time Win32 (sample_env\<lparr>GetTickCount := 1000\<rparr>) = 3
   \<and> native_get_delta_time
     (run X11
        [(Call_init_window 800 600 ''PyFlare'' 0 0, sample_env),
         (Call_update, sample_env\<lparr>clock_gettime := \<lparr>tv_sec = 33554432, tv_nsec = 0\<rparr>\<rparr>),
         (Call_update, sample_env\<lparr>clock_gettime := \<lparr>tv_sec = 33554432, tv_nsec = 1\<rparr>\<rparr>)]
        initial_world) = 0"
proof -
  have w1: "current_time Win32 (sample_env\<lparr>GetTickCount := 1000\<rparr>) = 1"
    by (simp add: current_time_win32 round_double_1)
  have w3: "current_time Win32 (sample_env\<lparr>GetTickCount := 3000\<rparr>) = 3"
    by (simp add: current_time_win32 round_double_numeral)
  have w4: "current_time Win32 (sample_env\<lparr>GetTickCount := 4000\<rparr>) = 4"
    by (simp add: current_time_win32 round_double_numeral)
  have cf: "creation_failure Win32 (sample_env\<lparr>GetTickCount := 3000\<rparr>) = None"
    by (simp add: creation_failure_def sample_env_def)
  have win: "native_get_delta_time
     (run Win32
        [(Call_update, sample_env\<lparr>GetTickCount := 1000\<rparr>),
         (Call_init_window 800 600 ''PyFlare'' 0 0, sample_env\<lparr>GetTickCount := 3000\<rparr>),
         (Call_update, sample_env\<lparr>GetTickCount := 4000\<rparr>)]
        initial_world) = 1"
    by (simp add: run_def native_get_delta_time_def update_g_window init_g_window
        create_window_last cf w3 w4 round_double_1)
  have ns: "round_double (1 / 1000000000) = of_int 4835703278458517 * 2 powi (- 30 - 52)"
    by (rule round_double_eqI) (simp_all add: round_half_even_def)
  have x1: "current_time X11 (sample_env\<lparr>clock_gettime := \<lparr>tv_sec = 33554432, tv_nsec = 0\<rparr>\<rparr>)
              = 33554432"
    by (simp add: current_time_def double_of_int_exact round_double_0 round_double_numeral)
  have "round_double (33554432 + of_int 4835703278458517 * 2 powi (- 30 - 52))
          = of_int 4503599627370496 * 2 powi (25 - 52)"
    by (rule round_double_eqI) (simp_all add: round_half_even_def)
  then have x2: "current_time X11 (sample_env\<lparr>clock_gettime := \<lparr>tv_sec = 33554432, tv_nsec = 1\<rparr>\<rparr>)
              = 33554432"
    by (simp add: current_time_def double_of_int_exact ns)
  have x: "native_get_delta_time
     (run X11
        [(Call_init_window 800 600 ''PyFlare'' 0 0, sample_env),
         (Call_update, sample_env\<lparr>clock_gettime := \<lparr>tv_sec = 33554432, tv_nsec = 0\<rparr>\<rparr>),
         (Call_update, sample_env\<lparr>clock_gettime := \<lparr>tv_sec = 33554432, tv_nsec = 1\<rparr>\<rparr>)]
        initial_world) = 0"
    by (simp add: run_def native_get_delta_time_def update_g_window x1 x2 round_double_0)
  from win x show ?thesis
    by (simp add: w1 w4)
qed

text \<open>
  Claim C2, amended. Take a run with at least two calls of \<open>native_update\<close> in which
  no successful Win32 window creation lies between the last two of them, and in which
  the reading of the clock computed by the last one is not smaller than the reading
  computed by the one before. Then \<open>native_get_delta_time\<close> is not negative, and it is
  the double nearest to the difference of the two readings, each reading being the
  double that the code computes from the clock (\<open>current_time\<close>). On X11 no step
  restarts the timer. By \<open>current_time_win32_mono\<close> and \<open>current_time_x11_mono\<close> the
  readings are in order whenever the tick count has not wrapped and the monotonic clock
  has not gone back; nothing is stated for a run in which they are not in order.
\<close>

theorem native_get_delta_time_between_updates:
  assumes "\<forall>ce \<in> set (between @ after). fst ce \<noteq> Call_update"
    and "\<forall>ce \<in> set between. \<not> restarts_timer p ce"
    and "current_time p e1 \<le> current_time p e2"
  shows "0 \<le> native_get_delta_time
                (run p (before @ [(Call_update, e1)] @ between @ [(Call_update, e2)] @ after) s)
     \<and> native_get_delta_time
           (run p (before @ [(Call_update, e1)] @ between @ [(Call_update, e2)] @ after) s)
         = round_double (current_time p e2 - current_time p e1)"
proof -
  let ?s1 = "native_update p e1 (run p before s)"
  let ?s2 = "run p between ?s1"
  let ?s3 = "native_update p e2 ?s2"
  have run: "run p (before @ [(Call_update, e1)] @ between @ [(Call_update, e2)] @ after) s
               = run p after ?s3"
    by (simp only: run_append run_update)
  have "last_time (g_window ?s1) = current_time p e1"
    by (simp add: update_g_window)
  moreover from assms(1,2) have "last_time (g_window ?s2) = last_time (g_window ?s1)"
    by (intro run_last_kept) simp
  ultimately have "delta_time (g_window ?s3) = round_double (current_time p e2 - current_time p e1)"
    by (simp add: update_g_window)
  moreover from assms(1) have "delta_time (g_window (run p after ?s3)) = delta_time (g_window ?s3)"
    by (intro run_delta_kept) simp
  ultimately have d: "delta_time (g_window (run p after ?s3))
                     = round_double (current_time p e2 - current_time p e1)"
    by simp
  from assms(3) have "0 \<le> round_double (current_time p e2 - current_time p e1)"
    by (intro round_double_nonneg) simp
  with d show ?thesis
    unfolding run native_get_delta_time_def by simp
qed

text \<open>
  Witness for C2: on X11, updates at 7 s and 7.5 s with a \<open>native_present\<close> between
  them give the readings 7 and 7.5 and a delta time of half a second.
\<close>

theorem native_get_delta_time_between_updates_witness:
  "current_time X11 (sample_env\<lparr>clock_gettime := \<lparr>tv_sec = 7, tv_nsec = 0\<rparr>\<rparr>) = 7
   \<and> current_time X11 (sample_env\<lparr>clock_gettime := \<lparr>tv_sec = 7, tv_nsec = 500000000\<rparr>\<rparr>)
       = 15 / 2
   \<and> native_get_delta_time
     (run X11
        ([(Call_init_window 800 600 ''PyFlare'' 0 0, sample_env)]
         @ [(Call_update, sample_env\<lparr>clock_gettime := \<lparr>tv_sec = 7, tv_nsec = 0\<rparr>\<rparr>)]
         @ [(Call_present, sample_env)]
         @ [(Call_update, sample_env\<lparr>clock_gettime := \<lparr>tv_sec = 7, tv_nsec = 500000000\<rparr>\<rparr>)]
         @ [(Call_get_delta_time, sample_env)])
        initial_world) = 1 / 2"
proof -
  have half: "round_double (1 / 2) = 1 / 2"
    using round_double_dyadic [of 1 1] by simp
  have r15: "round_double (15 / 2) = 15 / 2"
    using round_double_dyadic [of 15 1] by simp
  have t1: "current_time X11 (sample_env\<lparr>clock_gettime := \<lparr>tv_sec = 7, tv_nsec = 0\<rparr>\<rparr>) = 7"
    by (simp add: current_time_def double_of_int_exact round_double_0 round_double_numeral)
  have t2: "current_time X11 (sample_env\<lparr>clock_gettime := \<lparr>tv_sec = 7, tv_nsec = 500000000\<rparr>\<rparr>)
              = 15 / 2"
    by (simp add: current_time_def double_of_int_exact half r15)
  have a: "\<forall>ce \<in> set ([(Call_present, sample_env)] @ [(Call_get_delta_time, sample_env)]).
             fst ce \<noteq> Call_update"
    by simp
  have b: "\<forall>ce \<in> set [(Call_present, sample_env)]. \<not> restarts_timer X11 ce"
    by (simp add: restarts_timer_def)
  have c: "current_time X11 (sample_env\<lparr>clock_gettime := \<lparr>tv_sec = 7, tv_nsec = 0\<rparr>\<rparr>)
             \<le> current_time X11 (sample_env\<lparr>clock_gettime := \<lparr>tv_sec = 7, tv_nsec = 500000000\<rparr>\<rparr>)"
    by (simp add: t1 t2)
  from native_get_delta_time_between_updates [OF a b c,
      of "[(Call_init_window 800 600 ''PyFlare'' 0 0, sample_env)]" initial_world]
  show ?thesis
    by (simp add: t1 t2 half)
qed

text \<open>
  The readings of the Win32 clock can decrease: \<open>GetTickCount\<close> counts milliseconds
  in 32 bits and starts again at 0. An update at the last tick before that and one at
  the first tick after it give a negative delta time.
\<close>

lemma tick_count_wrap_negative_delta:
  "native_get_delta_time
     (run Win32
        [(Call_update, sample_env\<lparr>GetTickCount := 0xFFFFFFFF\<rparr>),
         (Call_update, sample_env\<lparr>GetTickCount := 0\<rparr>)]
        initial_world) = - (2305843008676823 / 536870912)"
proof -
  have "round_double (858993459 / 200) = of_int 4611686017353646 * 2 powi (22 - 52)"
    by (rule round_double_eqI) (simp_all add: round_half_even_def)
  then have r: "round_double (858993459 / 200) = 2305843008676823 / 536870912"
    by simp
  have w1: "current_time Win32 (sample_env\<lparr>GetTickCount := 0xFFFFFFFF\<rparr>)
              = 2305843008676823 / 536870912"
    by (simp add: current_time_win32 r)
  have w2: "current_time Win32 (sample_env\<lparr>GetTickCount := 0\<rparr>) = 0"
    by (simp add: current_time_win32 round_double_0)
  have "round_double (- (2305843008676823 / 536870912)) = - (2305843008676823 / 536870912)"
    using round_double_idem [of "858993459 / 200"] by (simp only: round_double_minus r)
  then show ?thesis
    by (simp add: run_def native_get_delta_time_def update_g_window w1 w2)
qed

subsection \<open>Window destruction (C3)\<close>

text \<open>
  Claim C3 as written says that \<open>native_destroy_window\<close> resets every field of the
  record. It does not: after a window of 800 by 600 is created and destroyed on X11, the
  record still holds the size and both handles, and differs from the zero-initialised
  record.
\<close>

theorem native_destroy_window_keeps_fields_counterexample:
  "width (g_window (native_destroy_window X11
      (snd (native_init_window X11 sample_env 800 600 ''PyFlare'' 0 0 initial_world)))) = 800
   \<and> height (g_window (native_destroy_window X11
      (snd (native_init_window X11 sample_env 800 600 ''PyFlare'' 0 0 initial_world)))) = 600
   \<and> native_handle (g_window (native_destroy_window X11
      (snd (native_init_window X11 sample_env 800 600 ''PyFlare'' 0 0 initial_world)))) = 0x5000
   \<and> gl_context (g_window (native_destroy_window X11
      (snd (native_init_window X11 sample_env 800 600 ''PyFlare'' 0 0 initial_world)))) = 0x6000
   \<and> g_window (native_destroy_window X11
      (snd (native_init_window X11 sample_env 800 600 ''PyFlare'' 0 0 initial_world)))
       \<noteq> initial_window"
  by (simp add: native_destroy_window_def native_init_window_def native_create_window_def
      native_create_window_x11_def sample_env_def Let_def printf_def initial_world_def
      initial_window_def)

text \<open>
  Claim C3, amended. After \<open>native_destroy_window\<close> returns, the open flag of the
  record is false and \<open>native_is_window_open\<close> returns 0; every other field of the
  record (native handle, GL context handle, width, height, timing fields) has the value
  it had before the call.
\<close>

theorem native_destroy_window_only_closes:
  "g_window (native_destroy_window p s) = (g_window s)\<lparr>is_open := False\<rparr>
   \<and> native_is_window_open (native_destroy_window p s) = 0"
  by (simp add: native_destroy_window_def native_is_window_open_def printf_def)

subsection \<open>The event pump (C4, C5)\<close>

text \<open>
  Claim C4. For every list of pending messages or events, \<open>native_poll_events\<close>
  processes each of them, in order, and returns with the queue empty: the state it
  returns is the state obtained by applying the handler of the build (the \<open>switch\<close>
  on X11; \<open>DispatchMessage\<close>, and through it the window procedure, on Win32) to every
  pending event in turn, with the queue emptied. On Win32 this includes the \<open>WM_QUIT\<close>
  that the window procedure posts on \<open>WM_DESTROY\<close>. When a close event (\<open>WM_CLOSE\<close>
  on Win32, \<open>ClientMessage\<close> on X11) is anywhere among the pending ones, the open flag
  is false afterwards and \<open>native_is_window_open\<close> returns 0.
\<close>

theorem native_poll_events_drains:
  "native_poll_events X11 s
     = (foldl (\<lambda>s event. x11_event event s) s (x_queue s))\<lparr>x_queue := []\<rparr>
   \<and> native_poll_events Win32 s
     = (foldl (\<lambda>s msg. DispatchMessage msg s) (s\<lparr>msg_queue := []\<rparr>) (msg_queue s))
         \<lparr>msg_queue := []\<rparr>
   \<and> queue_empty p (native_poll_events p s)
   \<and> (close_pending p s \<longrightarrow>
        \<not> is_open (g_window (native_poll_events p s))
        \<and> native_is_window_open (native_poll_events p s) = 0)"
  by (simp add: native_poll_events_def [of X11] native_poll_events_def [of Win32]
      x11_poll_fold [symmetric] win32_poll_fold [symmetric] poll_queue_empty poll_open
      native_is_window_open_def)

text \<open>
  Witness for C4: a window of 800 by 600 is open; a resize to 1024 by 768, a close and
  one more event are pending on X11, a \<open>WM_DESTROY\<close> and a \<open>WM_CLOSE\<close> on Win32.
  After the pump the queue is empty, the window is reported closed, and on X11 the
  size is the one of the resize event.
\<close>

theorem native_poll_events_drains_witness:
  "native_is_window_open
     (run X11
        [(Call_init_window 800 600 ''PyFlare'' 0 0, sample_env),
         (System_queues []
            [\<lparr>type = ConfigureNotify, xconfigure_width = 1024, xconfigure_height = 768\<rparr>,
             \<lparr>type = ClientMessage, xconfigure_width = 0, xconfigure_height = 0\<rparr>,
             \<lparr>type = OtherEvent, xconfigure_width = 0, xconfigure_height = 0\<rparr>], sample_env)]
        initial_world) = 1
   \<and> close_pending X11
     (run X11
        [(Call_init_window 800 600 ''PyFlare'' 0 0, sample_env),
         (System_queues []
            [\<lparr>type = ConfigureNotify, xconfigure_width = 1024, xconfigure_height = 768\<rparr>,
             \<lparr>type = ClientMessage, xconfigure_width = 0, xconfigure_height = 0\<rparr>,
             \<lparr>type = OtherEvent, xconfigure_width = 0, xconfigure_height = 0\<rparr>], sample_env)]
        initial_world)
   \<and> queue_empty X11 (native_poll_events X11
     (run X11
        [(Call_init_window 800 600 ''PyFlare'' 0 0, sample_env),
         (System_queues []
            [\<lparr>type = ConfigureNotify, xconfigure_width = 1024, xconfigure_height = 768\<rparr>,
             \<lparr>type = ClientMessage, xconfigure_width = 0, xconfigure_height = 0\<rparr>,
             \<lparr>type = OtherEvent, xconfigure_width = 0, xconfigure_height = 0\<rparr>], sample_env)]
        initial_world))
   \<and> native_is_window_open (native_poll_events X11
     (run X11
        [(Call_init_window 800 600 ''PyFlare'' 0 0, sample_env),
         (System_queues []
            [\<lparr>type = ConfigureNotify, xconfigure_width = 1024, xconfigure_height = 768\<rparr>,
             \<lparr>type = ClientMessage, xconfigure_width = 0, xconfigure_height = 0\<rparr>,
             \<lparr>type = OtherEvent, xconfigure_width = 0, xconfigure_height = 0\<rparr>], sample_env)]
        initial_world)) = 0
   \<and> native_get_window_size (native_poll_events X11
     (run X11
        [(Call_init_window 800 600 ''PyFlare'' 0 0, sample_env),
         (System_queues []
            [\<lparr>type = ConfigureNotify, xconfigure_width = 1024, xconfigure_height = 768\<rparr>,
             \<lparr>type = ClientMessage, xconfigure_width = 0, xconfigure_height = 0\<rparr>,
             \<lparr>type = OtherEvent, xconfigure_width = 0, xconfigure_height = 0\<rparr>], sample_env)]
        initial_world)) = (1024, 768)
   \<and> close_pending Win32
     (run Win32
        [(Call_init_window 800 600 ''PyFlare'' 0 0, sample_env),
         (System_queues
            [\<lparr>message = WM_DESTROY, wParam = 0, lParam = 0\<rparr>,
             \<lparr>message = WM_CLOSE, wParam = 0, lParam = 0\<rparr>] [], sample_env)]
        initial_world)
   \<and> queue_empty Win32 (native_poll_events Win32
     (run Win32
        [(Call_init_window 800 600 ''PyFlare'' 0 0, sample_env),
         (System_queues
            [\<lparr>message = WM_DESTROY, wParam = 0, lParam = 0\<rparr>,
             \<lparr>message = WM_CLOSE, wParam = 0, lParam = 0\<rparr>] [], sample_env)]
        initial_world))
   \<and> native_is_window_open (native_poll_events Win32
     (run Win32
        [(Call_init_window 800 600 ''PyFlare'' 0 0, sample_env),
         (System_queues
            [\<lparr>message = WM_DESTROY, wParam = 0, lParam = 0\<rparr>,
             \<lparr>message = WM_CLOSE, wParam = 0, lParam = 0\<rparr>] [], sample_env)]
        initial_world)) = 0"
proof -
  let ?x = "run X11
        [(Call_init_window 800 600 ''PyFlare'' 0 0, sample_env),
         (System_queues []
            [\<lparr>type = ConfigureNotify, xconfigure_width = 1024, xconfigure_height = 768\<rparr>,
             \<lparr>type = ClientMessage, xconfigure_width = 0, xconfigure_height = 0\<rparr>,
             \<lparr>type = OtherEvent, xconfigure_width = 0, xconfigure_height = 0\<rparr>], sample_env)]
        initial_world"
  let ?w = "run Win32
        [(Call_init_window 800 600 ''PyFlare'' 0 0, sample_env),
         (System_queues
            [\<lparr>message = WM_DESTROY, wParam = 0, lParam = 0\<rparr>,
             \<lparr>message = WM_CLOSE, wParam = 0, lParam = 0\<rparr>] [], sample_env)]
        initial_world"
  have o: "native_is_window_open ?x = 1"
    by (simp add: run_def native_is_window_open_def init_open init_result creation_failure_def
        sample_env_def)
  have x: "close_pending X11 ?x"
    by (simp add: close_pending_def run_def)
  have w: "close_pending Win32 ?w"
    by (simp add: close_pending_def run_def)
  have q: "x_queue ?x
             = [\<lparr>type = ConfigureNotify, xconfigure_width = 1024, xconfigure_height = 768\<rparr>,
                \<lparr>type = ClientMessage, xconfigure_width = 0, xconfigure_height = 0\<rparr>,
                \<lparr>type = OtherEvent, xconfigure_width = 0, xconfigure_height = 0\<rparr>]"
    by (simp add: run_def native_init_window_def native_create_window_def
        native_create_window_x11_def sample_env_def Let_def printf_def initial_world_def)
  from native_poll_events_drains [of ?x X11]
  have e: "native_poll_events X11 ?x
          = (foldl (\<lambda>s event. x11_event event s) ?x (x_queue ?x))\<lparr>x_queue := []\<rparr>"
    by (rule conjunct1)
  have size: "native_get_window_size (native_poll_events X11 ?x) = (1024, 768)"
    unfolding e q by (simp add: native_get_window_size_def x11_event_def)
  from native_poll_events_drains [of ?x X11] x
  have dx: "queue_empty X11 (native_poll_events X11 ?x)
            \<and> native_is_window_open (native_poll_events X11 ?x) = 0"
    by blast
  from native_poll_events_drains [of ?w Win32] w
  have dw: "queue_empty Win32 (native_poll_events Win32 ?w)
            \<and> native_is_window_open (native_poll_events Win32 ?w) = 0"
    by blast
  from o x w size dx dw show ?thesis
    by blast
qed

text \<open>
  Claim C5. After the event pump has processed a resize event carrying the dimensions
  \<open>w\<close> and \<open>h\<close>, with no later resize event in the same queue,
  \<open>native_get_window_size\<close> gives exactly \<open>w\<close> and \<open>h\<close>. On X11 the event is a
  \<open>ConfigureNotify\<close> with these two fields; on Win32 it is a \<open>WM_SIZE\<close> whose
  \<open>lParam\<close> packs two 16-bit words.
\<close>

theorem native_get_window_size_after_resize:
  "(x_queue s = before @ event # after \<and> type event = ConfigureNotify
      \<and> xconfigure_width event = w \<and> xconfigure_height event = h
      \<and> (\<forall>e \<in> set after. type e \<noteq> ConfigureNotify) \<longrightarrow>
        native_get_window_size (native_poll_events X11 s) = (w, h))
   \<and> (msg_queue s = before_msgs @ msg # after_msgs \<and> message msg = WM_SIZE
      \<and> lParam msg = MAKELPARAM lo hi
      \<and> (\<forall>m \<in> set after_msgs. message m \<noteq> WM_SIZE) \<longrightarrow>
        native_get_window_size (native_poll_events Win32 s) = (ucast lo, ucast hi))"
proof (intro conjI impI)
  assume a: "x_queue s = before @ event # after \<and> type event = ConfigureNotify
      \<and> xconfigure_width event = w \<and> xconfigure_height event = h
      \<and> (\<forall>e \<in> set after. type e \<noteq> ConfigureNotify)"
  then have "width (g_window (native_poll_events_x11 s)) = xconfigure_width event
     \<and> height (g_window (native_poll_events_x11 s)) = xconfigure_height event"
    by (intro x11_poll_size_last [of s before event after]) simp_all
  with a show "native_get_window_size (native_poll_events X11 s) = (w, h)"
    by (simp add: native_get_window_size_def native_poll_events_def)
next
  assume a: "msg_queue s = before_msgs @ msg # after_msgs \<and> message msg = WM_SIZE
      \<and> lParam msg = MAKELPARAM lo hi
      \<and> (\<forall>m \<in> set after_msgs. message m \<noteq> WM_SIZE)"
  then have "width (g_window (native_poll_events_win32 s)) = ucast (LOWORD (lParam msg))
     \<and> height (g_window (native_poll_events_win32 s)) = ucast (HIWORD (lParam msg))"
    by (intro win32_poll_size_last [of s before_msgs msg after_msgs]) simp_all
  with a show "native_get_window_size (native_poll_events Win32 s) = (ucast lo, ucast hi)"
    by (simp add: native_get_window_size_def native_poll_events_def LOWORD_MAKELPARAM
        HIWORD_MAKELPARAM)
qed

text \<open>
  Witness for C5: a window of 800 by 600 with pending resizes to 640 by 480 and then
  to 1024 by 768 (X11), and with one pending resize to 1024 by 768 (Win32).
\<close>

theorem native_get_window_size_after_resize_witness:
  "native_get_window_size
     (run X11
        [(Call_init_window 800 600 ''PyFlare'' 0 0, sample_env),
         (System_queues []
            [\<lparr>type = ConfigureNotify, xconfigure_width = 640, xconfigure_height = 480\<rparr>,
             \<lparr>type = ConfigureNotify, xconfigure_width = 1024, xconfigure_height = 768\<rparr>,
             \<lparr>type = OtherEvent, xconfigure_width = 0, xconfigure_height = 0\<rparr>], sample_env)]
        initial_world) = (800, 600)
   \<and> native_get_window_size (native_poll_events X11
     (run X11
        [(Call_init_window 800 600 ''PyFlare'' 0 0, sample_env),
         (System_queues []
            [\<lparr>type = ConfigureNotify, xconfigure_width = 640, xconfigure_height = 480\<rparr>,
             \<lparr>type = ConfigureNotify, xconfigure_width = 1024, xconfigure_height = 768\<rparr>,
             \<lparr>type = OtherEvent, xconfigure_width = 0, xconfigure_height = 0\<rparr>], sample_env)]
        initial_world)) = (1024, 768)
   \<and> native_get_window_size (native_poll_events Win32
     (run Win32
        [(Call_init_window 800 600 ''PyFlare'' 0 0, sample_env),
         (System_queues
            [\<lparr>message = WM_OTHER, wParam = 0, lParam = 0\<rparr>,
             \<lparr>message = WM_SIZE, wParam = 0, lParam = MAKELPARAM 1024 768\<rparr>,
             \<lparr>message = WM_DESTROY, wParam = 0, lParam = 0\<rparr>] [], sample_env)]
        initial_world)) = (1024, 768)"
proof -
  let ?x = "run X11
        [(Call_init_window 800 600 ''PyFlare'' 0 0, sample_env),
         (System_queues []
            [\<lparr>type = ConfigureNotify, xconfigure_width = 640, xconfigure_height = 480\<rparr>,
             \<lparr>type = ConfigureNotify, xconfigure_width = 1024, xconfigure_height = 768\<rparr>,
             \<lparr>type = OtherEvent, xconfigure_width = 0, xconfigure_height = 0\<rparr>], sample_env)]
        initial_world"
  let ?w = "run Win32
        [(Call_init_window 800 600 ''PyFlare'' 0 0, sample_env),
         (System_queues
            [\<lparr>message = WM_OTHER, wParam = 0, lParam = 0\<rparr>,
             \<lparr>message = WM_SIZE, wParam = 0, lParam = MAKELPARAM 1024 768\<rparr>,
             \<lparr>message = WM_DESTROY, wParam = 0, lParam = 0\<rparr>] [], sample_env)]
        initial_world"
  have o: "native_get_window_size ?x = (800, 600)"
    by (simp add: run_def native_get_window_size_def native_init_window_def
        native_create_window_def native_create_window_x11_def sample_env_def Let_def printf_def)
  have x: "x_queue ?x
             = [\<lparr>type = ConfigureNotify, xconfigure_width = 640, xconfigure_height = 480\<rparr>]
               @ \<lparr>type = ConfigureNotify, xconfigure_width = 1024, xconfigure_height = 768\<rparr>
               # [\<lparr>type = OtherEvent, xconfigure_width = 0, xconfigure_height = 0\<rparr>]"
    by (simp add: run_def native_init_window_def native_create_window_def
        native_create_window_x11_def sample_env_def Let_def printf_def initial_world_def)
  have w: "msg_queue ?w
             = [\<lparr>message = WM_OTHER, wParam = 0, lParam = 0\<rparr>]
               @ \<lparr>message = WM_SIZE, wParam = 0, lParam = MAKELPARAM 1024 768\<rparr>
               # [\<lparr>message = WM_DESTROY, wParam = 0, lParam = 0\<rparr>]"
    by (simp add: run_def native_init_window_def native_create_window_def
        native_create_window_win32_def sample_env_def Let_def printf_def initial_world_def)
  from native_get_window_size_after_resize
         [where s = ?x
            and before = "[\<lparr>type = ConfigureNotify, xconfigure_width = 640, xconfigure_height = 480\<rparr>]"
            and event = "\<lparr>type = ConfigureNotify, xconfigure_width = 1024, xconfigure_height = 768\<rparr>"
            and after = "[\<lparr>type = OtherEvent, xconfigure_width = 0, xconfigure_height = 0\<rparr>]"
            and w = 1024 and h = 768]
       native_get_window_size_after_resize
         [where s = ?w
            and before_msgs = "[\<lparr>message = WM_OTHER, wParam = 0, lParam = 0\<rparr>]"
            and msg = "\<lparr>message = WM_SIZE, wParam = 0, lParam = MAKELPARAM 1024 768\<rparr>"
            and after_msgs = "[\<lparr>message = WM_DESTROY, wParam = 0, lParam = 0\<rparr>]"
            and lo = 1024 and hi = 768]
       o x w
  show ?thesis
    by simp
qed

subsection \<open>Result of window creation (C6)\<close>

text \<open>
  Claim C6. For every input, \<open>native_init_window\<close> returns 0 or 1 and nothing else.
  It returns 0 exactly when \<open>native_create_window\<close> returns 0, which is when one of the
  checked steps fails (registration of the window class or creation of the window on
  Win32, opening the display or choosing the visual on X11); the line for that failure
  is then the one thing printed. It returns 1 when no checked step fails.
\<close>

theorem native_init_window_result:
  "(fst (native_init_window p env w h t fs vs s) = 0
      \<or> fst (native_init_window p env w h t fs vs s) = 1)
   \<and> (fst (native_init_window p env w h t fs vs s) = 0
        \<longleftrightarrow> fst (native_create_window p env
               \<lparr>WindowConfig.width = w, WindowConfig.height = h, title = t,
                fullscreen = (fs \<noteq> 0), vsync = (vs \<noteq> 0), gl_major = 2, gl_minor = 1\<rparr> s) = 0)
   \<and> (case creation_failure p env of
         Some f \<Rightarrow>
           fst (native_init_window p env w h t fs vs s) = 0
           \<and> stdout (snd (native_init_window p env w h t fs vs s))
               = stdout s @ [(failure_message f, [])]
       | None \<Rightarrow> fst (native_init_window p env w h t fs vs s) = 1)"
proof (cases "creation_failure p env")
  case None
  then show ?thesis by (simp add: init_result create_result)
next
  case (Some f)
  then show ?thesis
    by (simp add: init_result create_result init_failed_state create_failed_stdout)
qed

text \<open>
  Witness for C6: on Win32 with a failing \<open>CreateWindowEx\<close> the result is 0 and the one
  line printed is the line of that failure; on X11 with every step succeeding the result
  is 1.
\<close>

theorem native_init_window_result_witness:
  "fst (native_init_window Win32 (sample_env\<lparr>CreateWindowEx := 0\<rparr>) 800 600 ''PyFlare'' 0 0
          initial_world) = 0
   \<and> stdout (snd (native_init_window Win32 (sample_env\<lparr>CreateWindowEx := 0\<rparr>) 800 600
          ''PyFlare'' 0 0 initial_world))
       = [(''Failed to create window'' @ [newline], [])]
   \<and> fst (native_init_window X11 sample_env 800 600 ''PyFlare'' 0 0 initial_world) = 1"
proof -
  have f: "creation_failure Win32 (sample_env\<lparr>CreateWindowEx := 0\<rparr>) = Some Create_window_failed"
    by (simp add: creation_failure_def sample_env_def)
  have n: "creation_failure X11 sample_env = None"
    by (simp add: creation_failure_def sample_env_def)
  from native_init_window_result
         [of Win32 "sample_env\<lparr>CreateWindowEx := 0\<rparr>" 800 600 "''PyFlare''" 0 0 initial_world]
       native_init_window_result [of X11 sample_env 800 600 "''PyFlare''" 0 0 initial_world]
  show ?thesis
    by (simp add: f n initial_world_def)
qed

subsection \<open>The open flag (C7)\<close>

text \<open>
  Claim C7. The open flag is false in the zero-initialised state. A step of the C
  interface takes it from false to true only if the step is a \<open>native_init_window\<close>
  that returns 1, and from true to false only if the step is \<open>native_destroy_window\<close>
  or a \<open>native_update\<close> whose event pump finds a close event pending.
  \<open>native_is_window_open\<close> returns 1 when the flag is true and 0 when it is false.
\<close>

theorem is_open_state_machine:
  "\<not> is_open (g_window initial_world)
   \<and> (\<not> is_open (g_window s) \<and> is_open (g_window (step p s (c, env))) \<longrightarrow>
        (\<exists>w h t fs vs. c = Call_init_window w h t fs vs
           \<and> fst (native_init_window p env w h t fs vs s) = 1))
   \<and> (is_open (g_window s) \<and> \<not> is_open (g_window (step p s (c, env))) \<longrightarrow>
        c = Call_destroy_window \<or> c = Call_update \<and> close_pending p s)
   \<and> native_is_window_open s = (if is_open (g_window s) then 1 else 0)"
  by (auto simp: step_open initial_world_def initial_window_def native_is_window_open_def
      split: api_call.splits)

text \<open>
  Witness for C7: from the initial state a successful \<open>native_init_window\<close> opens the
  window, and \<open>native_destroy_window\<close> closes it again.
\<close>

theorem is_open_state_machine_witness:
  "\<not> is_open (g_window initial_world)
   \<and> is_open (g_window
        (step X11 initial_world (Call_init_window 800 600 ''PyFlare'' 0 0, sample_env)))
   \<and> fst (native_init_window X11 sample_env 800 600 ''PyFlare'' 0 0 initial_world) = 1
   \<and> \<not> is_open (g_window
        (step X11
          (step X11 initial_world (Call_init_window 800 600 ''PyFlare'' 0 0, sample_env))
          (Call_destroy_window, sample_env)))
   \<and> native_is_window_open
        (step X11 initial_world (Call_init_window 800 600 ''PyFlare'' 0 0, sample_env)) = 1"
proof -
  let ?s1 = "step X11 initial_world (Call_init_window 800 600 ''PyFlare'' 0 0, sample_env)"
  have a: "\<not> is_open (g_window initial_world)"
    by (simp add: initial_world_def initial_window_def)
  have b: "is_open (g_window ?s1)"
    by (simp add: init_open init_result creation_failure_def sample_env_def)
  have c: "\<not> is_open (g_window (step X11 ?s1 (Call_destroy_window, sample_env)))"
    by (simp add: native_destroy_window_def printf_def)
  from is_open_state_machine
         [of initial_world X11 "Call_init_window 800 600 ''PyFlare'' 0 0" sample_env]
       is_open_state_machine [of ?s1 X11 Call_destroy_window sample_env]
       a b c
  show ?thesis
    by simp
qed

subsection \<open>Memory usage (C8)\<close>

text \<open>
  What \<open>native_get_memory_usage\<close> returns: 0 on the X11 build and on Win32 when the
  query fails; otherwise the working-set size converted to \<open>long\<close>, which is the size
  itself as long as it is below \<open>2 ^ 31\<close>.
\<close>

lemma native_get_memory_usage_cases:
  "native_get_memory_usage X11 env = 0
   \<and> (GetProcessMemoryInfo env = 0 \<longrightarrow> native_get_memory_usage Win32 env = 0)
   \<and> (GetProcessMemoryInfo env \<noteq> 0 \<longrightarrow>
        native_get_memory_usage Win32 env = sint (ucast (WorkingSetSize env) :: 32 word))
   \<and> (GetProcessMemoryInfo env \<noteq> 0 \<and> WorkingSetSize env < 2 ^ 31 \<longrightarrow>
        native_get_memory_usage Win32 env = uint (WorkingSetSize env))"
  by (simp add: native_get_memory_usage_def long_of_small_size)

text \<open>
  Claim C8 says that on Win32 a successful query returns the working-set size. With a
  working set of 3 GiB (3221225472 bytes) the query succeeds and the function returns
  -1073741824: the cast to the 32-bit \<open>long\<close> of Windows drops the upper bits.
\<close>

theorem native_get_memory_usage_truncates:
  "GetProcessMemoryInfo (sample_env\<lparr>WorkingSetSize := 0xC0000000\<rparr>) \<noteq> 0
   \<and> uint (WorkingSetSize (sample_env\<lparr>WorkingSetSize := 0xC0000000\<rparr>)) = 3221225472
   \<and> native_get_memory_usage Win32 (sample_env\<lparr>WorkingSetSize := 0xC0000000\<rparr>) = - 1073741824"
  by (simp add: native_get_memory_usage_def sample_env_def)

subsection \<open>Failed creation (C9)\<close>

text \<open>
  Claim C9. Whenever \<open>native_create_window\<close> returns 0, the record \<open>g_window\<close> is what
  it was before the call, and the same holds for \<open>native_init_window\<close>: no handle, size
  or timing field is written, and an open flag that was false is still false.
\<close>

theorem creation_failure_keeps_g_window:
  "(fst (native_create_window p env config s) = 0 \<longrightarrow>
      g_window (snd (native_create_window p env config s)) = g_window s)
   \<and> (fst (native_init_window p env w h t fs vs s) = 0 \<longrightarrow>
      g_window (snd (native_init_window p env w h t fs vs s)) = g_window s
      \<and> (\<not> is_open (g_window s) \<longrightarrow>
           \<not> is_open (g_window (snd (native_init_window p env w h t fs vs s)))))"
proof (cases "creation_failure p env")
  case None
  then show ?thesis by (simp add: init_result create_result)
next
  case (Some f)
  then show ?thesis
    by (simp add: init_g_window create_failed_window)
qed

text \<open>
  Witness for C9: on X11 with no visual, \<open>native_init_window\<close> returns 0 and leaves the
  zero-initialised record as it was, although the display it opened is stored in
  \<open>g_display\<close>.
\<close>

theorem creation_failure_keeps_g_window_witness:
  "fst (native_init_window X11 (sample_env\<lparr>glXChooseVisual := 0\<rparr>) 800 600 ''PyFlare'' 0 0
          initial_world) = 0
   \<and> g_window (snd (native_init_window X11 (sample_env\<lparr>glXChooseVisual := 0\<rparr>) 800 600
          ''PyFlare'' 0 0 initial_world)) = initial_window
   \<and> g_display (snd (native_init_window X11 (sample_env\<lparr>glXChooseVisual := 0\<rparr>) 800 600
          ''PyFlare'' 0 0 initial_world)) = 0x3000"
proof -
  have h: "fst (native_init_window X11 (sample_env\<lparr>glXChooseVisual := 0\<rparr>) 800 600
             ''PyFlare'' 0 0 initial_world) = 0"
    by (simp add: native_init_window_def native_create_window_def native_create_window_x11_def
        sample_env_def Let_def)
  have d: "g_display (snd (native_init_window X11 (sample_env\<lparr>glXChooseVisual := 0\<rparr>) 800 600
             ''PyFlare'' 0 0 initial_world)) = 0x3000"
    by (simp add: native_init_window_def native_create_window_def native_create_window_x11_def
        sample_env_def Let_def printf_def)
  from creation_failure_keeps_g_window
         [of X11 "sample_env\<lparr>glXChooseVisual := 0\<rparr>" _ initial_world 800 600 "''PyFlare''" 0 0]
       h d
  show ?thesis
    by (simp add: initial_world_def)
qed

subsection \<open>The first update on X11 (C10)\<close>

text \<open>
  Claim C10. On the X11 build a successful \<open>native_create_window\<close> does not write the
  last time stamp, which therefore is still 0 when the window is created from the
  zero-initialised state; the Win32 build stores the tick count, in seconds, at creation.
  So on X11 the first \<open>native_update\<close> of a run sets the delta time to the reading of
  \<open>CLOCK_MONOTONIC\<close> itself, that is to the double
  \<open>ts.tv_sec + ts.tv_nsec / 1000000000.0\<close>, whatever calls other than
  \<open>native_update\<close> came before it.
\<close>

theorem x11_first_update_delta_is_timestamp:
  "(fst (native_create_window X11 env config s) = 1 \<longrightarrow>
      last_time (g_window (snd (native_create_window X11 env config s)))
        = last_time (g_window s))
   \<and> (fst (native_create_window X11 env config initial_world) = 1 \<longrightarrow>
      last_time (g_window (snd (native_create_window X11 env config initial_world))) = 0)
   \<and> (fst (native_create_window Win32 env config s) = 1 \<longrightarrow>
      last_time (g_window (snd (native_create_window Win32 env config s)))
        = round_double (double_of_int (uint (GetTickCount env)) / 1000))
   \<and> ((\<forall>ce \<in> set calls. fst ce \<noteq> Call_update) \<longrightarrow>
      native_get_delta_time (native_update X11 env' (run X11 calls initial_world))
        = round_double
            (double_of_int (sint (tv_sec (clock_gettime env')))
             + round_double (double_of_int (sint (tv_nsec (clock_gettime env'))) / 1000000000)))"
proof (intro conjI impI)
  show "last_time (g_window (snd (native_create_window X11 env config s)))
          = last_time (g_window s)"
    by (simp add: create_window_last)
  show "last_time (g_window (snd (native_create_window X11 env config initial_world))) = 0"
    by (simp add: create_window_last initial_world_def initial_window_def)
  assume "fst (native_create_window Win32 env config s) = 1"
  then show "last_time (g_window (snd (native_create_window Win32 env config s)))
          = round_double (double_of_int (uint (GetTickCount env)) / 1000)"
    by (simp add: create_window_last create_result current_time_def split: if_splits)
next
  assume "\<forall>ce \<in> set calls. fst ce \<noteq> Call_update"
  then have "last_time (g_window (run X11 calls initial_world))
               = last_time (g_window initial_world)"
    by (intro run_last_kept) (simp add: restarts_timer_def split: api_call.splits)
  then have "native_get_delta_time (native_update X11 env' (run X11 calls initial_world))
               = round_double (current_time X11 env')"
    by (simp add: native_get_delta_time_def update_g_window initial_world_def initial_window_def)
  also have "\<dots> = current_time X11 env'"
    by (simp add: current_time_def round_double_idem)
  finally show "native_get_delta_time (native_update X11 env' (run X11 calls initial_world))
        = round_double
            (double_of_int (sint (tv_sec (clock_gettime env')))
             + round_double (double_of_int (sint (tv_nsec (clock_gettime env'))) / 1000000000))"
    by (simp add: current_time_def)
qed

text \<open>
  Witness for C10: after a window is created on X11, an update at a clock reading of
  86400.25 s gives a delta time of 86400.25 s; on Win32 with a tick count of 5000 the
  creation stores 5 s.
\<close>

theorem x11_first_update_delta_is_timestamp_witness:
  "fst (native_create_window X11 sample_env
          \<lparr>WindowConfig.width = 800, WindowConfig.height = 600, title = ''PyFlare'',
           fullscreen = False, vsync = False, gl_major = 2, gl_minor = 1\<rparr> initial_world) = 1
   \<and> last_time (g_window (snd (native_create_window X11 sample_env
          \<lparr>WindowConfig.width = 800, WindowConfig.height = 600, title = ''PyFlare'',
           fullscreen = False, vsync = False, gl_major = 2, gl_minor = 1\<rparr> initial_world))) = 0
   \<and> last_time (g_window (snd (native_create_window Win32 sample_env
          \<lparr>WindowConfig.width = 800, WindowConfig.height = 600, title = ''PyFlare'',
           fullscreen = False, vsync = False, gl_major = 2, gl_minor = 1\<rparr> initial_world))) = 5
   \<and> native_get_delta_time
        (native_update X11 (sample_env\<lparr>clock_gettime := \<lparr>tv_sec = 86400, tv_nsec = 250000000\<rparr>\<rparr>)
          (run X11 [(Call_init_window 800 600 ''PyFlare'' 0 0, sample_env)] initial_world))
       = 86400 + 1 / 4"
proof -
  let ?config = "\<lparr>WindowConfig.width = 800, WindowConfig.height = 600, title = ''PyFlare'',
           fullscreen = False, vsync = False, gl_major = 2, gl_minor = 1\<rparr>"
  have x: "fst (native_create_window X11 sample_env ?config initial_world) = 1"
    by (simp add: create_result creation_failure_def sample_env_def)
  have w: "fst (native_create_window Win32 sample_env ?config initial_world) = 1"
    by (simp add: create_result creation_failure_def sample_env_def)
  have t: "round_double (double_of_int (uint (GetTickCount sample_env)) / 1000) = 5"
    by (simp add: sample_env_def double_of_int_exact round_double_numeral)
  have quarter: "round_double (1 / 4) = 1 / 4"
    using round_double_dyadic [of 1 2] by simp
  have r: "round_double (345601 / 4) = 345601 / 4"
    using round_double_dyadic [of 345601 2] by simp
  have d: "round_double
             (double_of_int (sint (tv_sec (clock_gettime
                (sample_env\<lparr>clock_gettime := \<lparr>tv_sec = 86400, tv_nsec = 250000000\<rparr>\<rparr>))))
              + round_double (double_of_int (sint (tv_nsec (clock_gettime
                  (sample_env\<lparr>clock_gettime := \<lparr>tv_sec = 86400, tv_nsec = 250000000\<rparr>\<rparr>))))
                  / 1000000000)) = 345601 / 4"
    by (simp add: double_of_int_exact quarter r)
  have c: "\<forall>ce \<in> set [(Call_init_window 800 600 ''PyFlare'' 0 0, sample_env)].
             fst ce \<noteq> Call_update"
    by simp
  from x11_first_update_delta_is_timestamp
         [of sample_env ?config initial_world
             "[(Call_init_window 800 600 ''PyFlare'' 0 0, sample_env)]"
             "sample_env\<lparr>clock_gettime := \<lparr>tv_sec = 86400, tv_nsec = 250000000\<rparr>\<rparr>"]
       x w c
  show ?thesis
    by (simp only: t d) simp
qed

end
